theory Spec2Isabelle
  imports Complex_Main "HOL-Library.Sublist" "HOL-Library.Log_Nat"
begin

section \<open>Jetski Pool XMR tracker: data model\<close>

text \<open>
  The development embeds \<^verbatim>\<open>scripts/jetski_tracker_integration.py\<close>.
  Conventions of the embedding:
  \<^item> a Python \<^verbatim>\<open>int\<close> is an \<^typ>\<open>int\<close>;
  \<^item> a Python \<^verbatim>\<open>float\<close> is an IEEE 754 binary64 value: a finite one is given by
    its real value, and every arithmetic result is rounded to the nearest
    binary64 value, ties to even, overflowing to an infinity. The two zeros
    are one value; they differ only in how they are printed;
  \<^item> values carry the types of the source's annotations (\<^verbatim>\<open>orphaned_blocks: int\<close>,
    \<^verbatim>\<open>List[Tuple[str, float]]\<close>, ...); a JSON field holding a value of another
    type is outside the model;
  \<^item> an exception that leaves a function is a value \<open>Inl e\<close> of a sum type.
\<close>

datatype error = ValueError | ZeroDivisionError | OSError | OverflowError | KeyboardInterrupt

section \<open>Binary64 arithmetic\<close>

text \<open>
  The binary exponent of a non-zero real: \<open>2 powi expo x \<le> \<bar>x\<bar> < 2 powi (expo x + 1)\<close>,
  computed from the bit length of the integer part (of the reciprocal, below 1).
\<close>

definition expo :: "real \<Rightarrow> int" where
  "expo x = (if 1 \<le> \<bar>x\<bar> then bitlen \<lfloor>\<bar>x\<bar>\<rfloor> - 1 else - bitlen (\<lceil>1 / \<bar>x\<bar>\<rceil> - 1))"

text \<open>
  The exponent of the unit in the last place at \<open>x\<close>: 53 significant bits,
  and the subnormal spacing \<open>2 powi (- 1074)\<close> below \<open>2 powi (- 1022)\<close>.
\<close>

definition grid :: "real \<Rightarrow> int" where
  "grid x = max (expo x) (- 1022) - 52"

definition round_half_even :: "real \<Rightarrow> int" where
  "round_half_even y =
     (let f = \<lfloor>y\<rfloor>; r = y - of_int f
      in if r < 1 / 2 then f else if 1 / 2 < r then f + 1 else if even f then f else f + 1)"

text \<open>Rounding to the nearest multiple of the unit in the last place.\<close>

definition rnd :: "real \<Rightarrow> real" where
  "rnd x = of_int (round_half_even (x / 2 powi grid x)) * 2 powi grid x"

datatype pyfloat = Fin real | PInf | NInf | NaN

text \<open>The binary64 value of a real: rounded, and infinite from \<open>2 ^ 1024\<close> on.\<close>

definition to_float :: "real \<Rightarrow> pyfloat" where
  "to_float x =
     (let r = rnd x
      in if 2 ^ 1024 \<le> r then PInf else if r \<le> - (2 ^ 1024) then NInf else Fin r)"

text \<open>A decimal float literal of the source, such as \<^verbatim>\<open>0.3\<close>.\<close>

definition lit :: "real \<Rightarrow> pyfloat" where
  "lit x = to_float x"

fun fneg :: "pyfloat \<Rightarrow> pyfloat" where
  "fneg (Fin a) = Fin (- a)"
| "fneg PInf = NInf"
| "fneg NInf = PInf"
| "fneg NaN = NaN"

fun fadd :: "pyfloat \<Rightarrow> pyfloat \<Rightarrow> pyfloat" where
  "fadd (Fin a) (Fin b) = to_float (a + b)"
| "fadd NaN b = NaN"
| "fadd a NaN = NaN"
| "fadd PInf NInf = NaN"
| "fadd NInf PInf = NaN"
| "fadd PInf b = PInf"
| "fadd a PInf = PInf"
| "fadd NInf b = NInf"
| "fadd a NInf = NInf"

definition fsub :: "pyfloat \<Rightarrow> pyfloat \<Rightarrow> pyfloat" where
  "fsub a b = fadd a (fneg b)"

fun fmul :: "pyfloat \<Rightarrow> pyfloat \<Rightarrow> pyfloat" where
  "fmul (Fin a) (Fin b) = to_float (a * b)"
| "fmul NaN b = NaN"
| "fmul a NaN = NaN"
| "fmul PInf (Fin b) = (if b = 0 then NaN else if 0 < b then PInf else NInf)"
| "fmul NInf (Fin b) = (if b = 0 then NaN else if 0 < b then NInf else PInf)"
| "fmul (Fin a) PInf = (if a = 0 then NaN else if 0 < a then PInf else NInf)"
| "fmul (Fin a) NInf = (if a = 0 then NaN else if 0 < a then NInf else PInf)"
| "fmul PInf PInf = PInf"
| "fmul NInf NInf = PInf"
| "fmul PInf NInf = NInf"
| "fmul NInf PInf = NInf"

text \<open>
  \<^verbatim>\<open>a / b\<close> for a divisor that is not zero. The source divides by the literals
  \<^verbatim>\<open>20.0\<close>, \<^verbatim>\<open>0.2\<close> and \<^verbatim>\<open>10000.0\<close>; where it divides by a variable the
  \<^verbatim>\<open>ZeroDivisionError\<close> of a zero divisor is written out at that place, and the
  value given here for a zero divisor is never used.
\<close>

fun fdiv :: "pyfloat \<Rightarrow> pyfloat \<Rightarrow> pyfloat" where
  "fdiv (Fin a) (Fin b) = (if b = 0 then NaN else to_float (a / b))"
| "fdiv NaN b = NaN"
| "fdiv a NaN = NaN"
| "fdiv PInf (Fin b) = (if 0 \<le> b then PInf else NInf)"
| "fdiv NInf (Fin b) = (if 0 \<le> b then NInf else PInf)"
| "fdiv (Fin a) b = Fin 0"
| "fdiv a b = NaN"

text \<open>\<^verbatim>\<open>a < b\<close> and \<^verbatim>\<open>a <= b\<close> on floats: false whenever a \<^verbatim>\<open>nan\<close> takes part.\<close>

fun flt :: "pyfloat \<Rightarrow> pyfloat \<Rightarrow> bool" where
  "flt (Fin a) (Fin b) = (a < b)"
| "flt NaN b = False"
| "flt a NaN = False"
| "flt a NInf = False"
| "flt PInf b = False"
| "flt NInf b = True"
| "flt a PInf = True"

fun fle :: "pyfloat \<Rightarrow> pyfloat \<Rightarrow> bool" where
  "fle (Fin a) (Fin b) = (a \<le> b)"
| "fle NaN b = False"
| "fle a NaN = False"
| "fle NInf b = True"
| "fle a PInf = True"
| "fle a NInf = False"
| "fle PInf b = False"

text \<open>
  The conversion of an \<^verbatim>\<open>int\<close> operand of a float operation: correctly rounded,
  and \<^verbatim>\<open>OverflowError: int too large to convert to float\<close> when the rounded
  value is not finite.
\<close>

definition int_to_float :: "int \<Rightarrow> error + pyfloat" where
  "int_to_float n = (case to_float (of_int n) of Fin r \<Rightarrow> Inr (Fin r) | _ \<Rightarrow> Inl OverflowError)"

text \<open>A float that an operation can yield: on the binary64 grid and in range.\<close>

fun is_double :: "pyfloat \<Rightarrow> bool" where
  "is_double (Fin r) = (rnd r = r \<and> \<bar>r\<bar> < 2 ^ 1024)"
| "is_double v = True"

text \<open>The multiples of \<open>2 powi k\<close>; a vocabulary of the proofs about rounding.\<close>

definition on_grid :: "int \<Rightarrow> real \<Rightarrow> bool" where
  "on_grid k f \<longleftrightarrow> (\<exists>N. f = of_int N * 2 powi k)"

section \<open>The snapshot and the client\<close>

text \<open>The dataclass \<^verbatim>\<open>JetskiTrackerData\<close>.\<close>

record JetskiTrackerData =
  network_hashrate :: pyfloat
  qubic_hashrate :: pyfloat
  orphaned_blocks :: int
  block_withholding_score :: pyfloat
  pool_distribution :: "(string \<times> pyfloat) list"
  last_reorg_depth :: int
  timestamp :: pyfloat
  xmr_price :: pyfloat

text \<open>
  The state of a \<^verbatim>\<open>JetskiTrackerClient\<close>: the seed and the headers that
  \<^verbatim>\<open>__init__\<close> installs on its HTTP session.
\<close>

record client =
  seed :: int
  session_headers :: "(string \<times> string) list"

definition init_client :: "int \<Rightarrow> client" where
  "init_client s =
     \<lparr>seed = s,
      session_headers =
        [(''User-Agent'', ''MoneroRentalHashWar-OpenGame/1.0 (Research Tool)''),
         (''Accept'', ''application/json'')]\<rparr>"

section \<open>The withholding score\<close>

text \<open>
  Python's two-argument \<^verbatim>\<open>min(a, b)\<close> and \<^verbatim>\<open>max(a, b)\<close> return the first
  argument unless the second is strictly smaller (larger).
\<close>

definition py_min :: "pyfloat \<Rightarrow> pyfloat \<Rightarrow> pyfloat" where
  "py_min a b = (if flt b a then b else a)"

definition py_max :: "pyfloat \<Rightarrow> pyfloat \<Rightarrow> pyfloat" where
  "py_max a b = (if flt a b then b else a)"

definition py_max_int :: "int \<Rightarrow> int \<Rightarrow> int" where
  "py_max_int a b = (if a < b then b else a)"

text \<open>
  \<^verbatim>\<open>max(iterable)\<close> raises \<^verbatim>\<open>ValueError\<close> on an empty iterable and otherwise
  keeps the first maximal item; \<open>mx\<close> is the two-argument maximum of the items.
\<close>

fun py_max_iter :: "('a \<Rightarrow> 'a \<Rightarrow> 'a) \<Rightarrow> 'a list \<Rightarrow> error + 'a" where
  "py_max_iter mx [] = Inl ValueError"
| "py_max_iter mx (x # xs) = Inr (foldl mx x xs)"

text \<open>
  \<^verbatim>\<open>orphan_score = min(orphaned_blocks / 20.0, 1.0)\<close>: the division converts the
  \<^verbatim>\<open>int\<close> first, which may raise.
\<close>

definition orphan_score :: "int \<Rightarrow> error + pyfloat" where
  "orphan_score ob =
     (case int_to_float ob of
        Inl e \<Rightarrow> Inl e
      | Inr v \<Rightarrow> Inr (py_min (fdiv v (lit 20.0)) (lit 1.0)))"

text \<open>\<^verbatim>\<open>max_pool_share = max(share for _, share in pool_dist)\<close>\<close>

definition max_pool_share :: "(string \<times> pyfloat) list \<Rightarrow> error + pyfloat" where
  "max_pool_share pool_dist = py_max_iter py_max (map snd pool_dist)"

text \<open>
  \<^verbatim>\<open>concentration_score = max(0, (max_pool_share - 0.3) / 0.2)\<close>; the \<^verbatim>\<open>int\<close>
  \<^verbatim>\<open>0\<close> enters the later product as the float zero.
\<close>

definition concentration_score :: "pyfloat \<Rightarrow> pyfloat" where
  "concentration_score m = py_max (Fin 0) (fdiv (fsub m (lit 0.3)) (lit 0.2))"

text \<open>\<^verbatim>\<open>combined = (orphan_score * 0.7 + concentration_score * 0.3)\<close>\<close>

definition combined :: "pyfloat \<Rightarrow> pyfloat \<Rightarrow> pyfloat" where
  "combined os cs = fadd (fmul os (lit 0.7)) (fmul cs (lit 0.3))"

text \<open>
  \<^verbatim>\<open>seed_offset = (self.seed % 100) / 10000.0\<close>. Python's \<^verbatim>\<open>%\<close> with a
  positive divisor yields a result in \<open>0..99\<close> also for a negative seed, as
  \<^term>\<open>(mod)\<close> on \<^typ>\<open>int\<close> does; an \<^verbatim>\<open>int\<close> of that size converts to a float
  exactly.
\<close>

definition seed_offset :: "int \<Rightarrow> pyfloat" where
  "seed_offset s = fdiv (Fin (of_int (s mod 100))) (lit 10000.0)"

text \<open>
  \<^verbatim>\<open>calculate_withholding_score(self, orphaned_blocks, pool_dist)\<close>, in the
  order of the source: the orphan score (which may raise), the maximum (which
  may raise), the concentration score, the combination, the seed offset and
  the final \<^verbatim>\<open>min(combined + seed_offset, 1.0)\<close>.
\<close>

definition calculate_withholding_score ::
  "client \<Rightarrow> int \<Rightarrow> (string \<times> pyfloat) list \<Rightarrow> error + pyfloat" where
  "calculate_withholding_score self ob pool_dist =
     (case orphan_score ob of
        Inl e \<Rightarrow> Inl e
      | Inr os \<Rightarrow>
          (case max_pool_share pool_dist of
             Inl e \<Rightarrow> Inl e
           | Inr m \<Rightarrow>
               (let cs = concentration_score m;
                    cb = combined os cs;
                    so = seed_offset (seed self)
                in Inr (py_min (fadd cb so) (lit 1.0)))))"

text \<open>
  The threat assessment that \<^verbatim>\<open>main\<close> prints in watch mode, from
  \<^verbatim>\<open>block_withholding_score\<close>.
\<close>

datatype threat = CRITICAL | HIGH | MODERATE | LOW

definition threat_assessment :: "pyfloat \<Rightarrow> threat" where
  "threat_assessment score =
     (if flt (lit 0.85) score then CRITICAL
      else if flt (lit 0.6) score then HIGH
      else if flt (lit 0.3) score then MODERATE
      else LOW)"

section \<open>The five sources\<close>

text \<open>
  What one \<^verbatim>\<open>self.session.get(url, timeout=5)\<close> does, as far as the client
  looks at it: \<open>Raises\<close> when the call raises an \<^verbatim>\<open>Exception\<close> (timeout,
  transport error); \<open>Interrupted\<close> when Ctrl+C arrives during the call
  (\<^verbatim>\<open>KeyboardInterrupt\<close>, which is no \<^verbatim>\<open>Exception\<close>); \<open>Responds st body\<close> when
  a response with status code \<open>st\<close> arrives, where \<open>body\<close> is \<open>None\<close> when
  \<^verbatim>\<open>response.json()\<close> raises or yields no JSON object (so that the first
  access to \<^verbatim>\<open>data\<close> raises inside the \<^verbatim>\<open>try\<close>), and \<open>Some data\<close> for the
  parsed object, a dictionary from keys to values.
\<close>

datatype 'd http_result = Raises | Interrupted | Responds int "'d option"

text \<open>\<^verbatim>\<open>data.get(key, default)\<close>\<close>

definition dict_get :: "('k \<rightharpoonup> 'v) \<Rightarrow> 'k \<Rightarrow> 'v \<Rightarrow> 'v" where
  "dict_get data k d = (case data k of None \<Rightarrow> d | Some v \<Rightarrow> v)"

text \<open>
  An element \<^verbatim>\<open>p\<close> of \<^verbatim>\<open>data['pools']\<close>: its \<^verbatim>\<open>'name'\<close> and \<^verbatim>\<open>'share'\<close>, each
  \<open>None\<close> when \<^verbatim>\<open>p[key]\<close> raises (the key is absent).
\<close>

record pool_json =
  pj_name :: "string option"
  pj_share :: "pyfloat option"

text \<open>
  The environment of one \<^verbatim>\<open>fetch_all\<close>: the behaviour of the six URLs and the
  value of \<^verbatim>\<open>time.time()\<close>. An element of \<^verbatim>\<open>data['reorgs']\<close> is given by its
  \<^verbatim>\<open>'depth'\<close>, \<open>None\<close> when the key is absent.
\<close>

record environment =
  hashrate_reply :: "(string \<rightharpoonup> pyfloat) http_result"
  fallback_reply :: "unit http_result"
  orphaned_reply :: "(string \<rightharpoonup> int) http_result"
  pools_reply :: "(string \<rightharpoonup> pool_json list) http_result"
  reorgs_reply :: "(string \<rightharpoonup> int option list) http_result"
  price_reply :: "(string \<rightharpoonup> (string \<rightharpoonup> pyfloat)) http_result"
  clock :: pyfloat

text \<open>
  \<^verbatim>\<open>fetch_network_hashrate\<close>: the first \<^verbatim>\<open>try\<close> returns a value or falls
  through; its \<^verbatim>\<open>except Exception\<close> does not catch a \<^verbatim>\<open>KeyboardInterrupt\<close>.
  The fallback, under a bare \<^verbatim>\<open>except\<close>, and the last line all return \<open>4.97\<close>.
\<close>

definition fetch_network_hashrate :: "environment \<Rightarrow> error + pyfloat" where
  "fetch_network_hashrate env =
     (case hashrate_reply env of
        Interrupted \<Rightarrow> Inl KeyboardInterrupt
      | reply \<Rightarrow>
          (case (case reply of
                   Responds st body \<Rightarrow>
                     if st = 200 then
                       (case body of
                          None \<Rightarrow> None
                        | Some data \<Rightarrow> Some (dict_get data ''hashrate_ghs'' (lit 4.97)))
                     else None
                 | _ \<Rightarrow> None) of
             Some v \<Rightarrow> Inr v
           | None \<Rightarrow>
               (case fallback_reply env of
                  Responds st body \<Rightarrow> if st = 200 then Inr (lit 4.97) else Inr (lit 4.97)
                | _ \<Rightarrow> Inr (lit 4.97))))"

text \<open>
  \<^verbatim>\<open>fetch_orphaned_blocks\<close>. Here and in the fetches below the bare
  \<^verbatim>\<open>except\<close> also swallows a \<^verbatim>\<open>KeyboardInterrupt\<close>.
\<close>

definition fetch_orphaned_blocks :: "environment \<Rightarrow> int" where
  "fetch_orphaned_blocks env =
     (case orphaned_reply env of
        Responds st body \<Rightarrow>
          if st = 200 then
            (case body of
               None \<Rightarrow> 0
             | Some data \<Rightarrow> dict_get data ''orphaned_24h'' 0)
          else 0
      | _ \<Rightarrow> 0)"

text \<open>
  The comprehension \<^verbatim>\<open>[(p['name'], p['share']) for p in ...]\<close>: \<open>None\<close> when
  some \<^verbatim>\<open>p[key]\<close> raises \<^verbatim>\<open>KeyError\<close>.
\<close>

fun pool_pairs :: "pool_json list \<Rightarrow> (string \<times> pyfloat) list option" where
  "pool_pairs [] = Some []"
| "pool_pairs (p # ps) =
     (case pj_name p of
        None \<Rightarrow> None
      | Some n \<Rightarrow>
          (case pj_share p of
             None \<Rightarrow> None
           | Some s \<Rightarrow>
               (case pool_pairs ps of
                  None \<Rightarrow> None
                | Some rest \<Rightarrow> Some ((n, s) # rest))))"

text \<open>The default distribution at the end of \<^verbatim>\<open>fetch_pool_distribution\<close>.\<close>

definition default_distribution :: "(string \<times> pyfloat) list" where
  "default_distribution =
     [(''Qubic'', lit 0.15),
      (''MineXMR'', lit 0.20),
      (''SupportXMR'', lit 0.18),
      (''Hashvault'', lit 0.12),
      (''Others'', lit 0.35)]"

text \<open>
  \<^verbatim>\<open>fetch_pool_distribution\<close>. With status 200 and a parsed object the result
  is the comprehension over \<^verbatim>\<open>data.get('pools', [])\<close>, whatever its length.
\<close>

definition fetch_pool_distribution :: "environment \<Rightarrow> (string \<times> pyfloat) list" where
  "fetch_pool_distribution env =
     (case pools_reply env of
        Responds st body \<Rightarrow>
          if st = 200 then
            (case body of
               None \<Rightarrow> default_distribution
             | Some data \<Rightarrow>
                 (case pool_pairs (dict_get data ''pools'' []) of
                    None \<Rightarrow> default_distribution
                  | Some pairs \<Rightarrow> pairs))
          else default_distribution
      | _ \<Rightarrow> default_distribution)"

text \<open>\<^verbatim>\<open>fetch_xmr_price\<close>: \<^verbatim>\<open>data['monero']['usd']\<close>, or \<open>167.0\<close>.\<close>

definition fetch_xmr_price :: "environment \<Rightarrow> pyfloat" where
  "fetch_xmr_price env =
     (case price_reply env of
        Responds st body \<Rightarrow>
          if st = 200 then
            (case body of
               None \<Rightarrow> lit 167.0
             | Some data \<Rightarrow>
                 (case data ''monero'' of
                    None \<Rightarrow> lit 167.0
                  | Some monero \<Rightarrow>
                      (case monero ''usd'' of None \<Rightarrow> lit 167.0 | Some usd \<Rightarrow> usd)))
          else lit 167.0
      | _ \<Rightarrow> lit 167.0)"

text \<open>\<^verbatim>\<open>[r['depth'] for r in reorgs]\<close>: \<open>None\<close> when some \<^verbatim>\<open>r['depth']\<close> raises.\<close>

fun reorg_depths :: "int option list \<Rightarrow> int list option" where
  "reorg_depths [] = Some []"
| "reorg_depths (r # rs) =
     (case r of
        None \<Rightarrow> None
      | Some d \<Rightarrow> (case reorg_depths rs of None \<Rightarrow> None | Some ds \<Rightarrow> Some (d # ds)))"

text \<open>\<^verbatim>\<open>max(items, default=0)\<close>\<close>

definition py_max_default :: "int list \<Rightarrow> int \<Rightarrow> int" where
  "py_max_default items d = (case py_max_iter py_max_int items of Inl e \<Rightarrow> d | Inr m \<Rightarrow> m)"

text \<open>\<^verbatim>\<open>fetch_latest_reorg\<close>\<close>

definition fetch_latest_reorg :: "environment \<Rightarrow> int" where
  "fetch_latest_reorg env =
     (case reorgs_reply env of
        Responds st body \<Rightarrow>
          if st = 200 then
            (case body of
               None \<Rightarrow> 0
             | Some data \<Rightarrow>
                 (case reorg_depths (dict_get data ''reorgs'' []) of
                    None \<Rightarrow> 0
                  | Some depths \<Rightarrow> py_max_default depths 0))
          else 0
      | _ \<Rightarrow> 0)"

section \<open>Building the snapshot\<close>

text \<open>\<^verbatim>\<open>needle in haystack\<close> on strings: the needle occurs as a contiguous run.\<close>

fun py_in :: "string \<Rightarrow> string \<Rightarrow> bool" where
  "py_in needle [] = (needle = [])"
| "py_in needle (c # cs) = (prefix needle (c # cs) \<or> py_in needle cs)"

text \<open>
  \<^verbatim>\<open>qubic_share = next((share for name, share in pool_distribution
  if "Qubic" in name), 0.0)\<close>
\<close>

fun qubic_share :: "(string \<times> pyfloat) list \<Rightarrow> pyfloat" where
  "qubic_share [] = lit 0.0"
| "qubic_share ((name, share) # rest) =
     (if py_in ''Qubic'' name then share else qubic_share rest)"

text \<open>
  \<^verbatim>\<open>fetch_all\<close>: the five fetches in the order of the source, the Qubic
  hashrate, the score (whose exceptions are not caught here) and the dataclass.
\<close>

definition fetch_all :: "client \<Rightarrow> environment \<Rightarrow> error + JetskiTrackerData" where
  "fetch_all self env =
     (case fetch_network_hashrate env of
        Inl e \<Rightarrow> Inl e
      | Inr nh \<Rightarrow>
          (let pd = fetch_pool_distribution env;
               ob = fetch_orphaned_blocks env;
               rd = fetch_latest_reorg env;
               price = fetch_xmr_price env;
               qs = qubic_share pd;
               qh = fmul nh qs
           in case calculate_withholding_score self ob pd of
                Inl e \<Rightarrow> Inl e
              | Inr ws \<Rightarrow>
                  Inr \<lparr>network_hashrate = nh,
                       qubic_hashrate = qh,
                       orphaned_blocks = ob,
                       block_withholding_score = ws,
                       pool_distribution = pd,
                       last_reorg_depth = rd,
                       timestamp = clock env,
                       xmr_price = price\<rparr>))"

section \<open>The command: single fetch and watch mode\<close>

text \<open>The parsed command line.\<close>

record args =
  arg_output :: string
  arg_watch :: bool
  arg_interval :: int
  arg_haskell :: bool
  arg_seed :: int

text \<open>
  What \<^verbatim>\<open>with open(args.output, 'w') as f: ...\<close> does: the file is written;
  or \<^verbatim>\<open>open\<close> raises and the file is as before; or the exception comes after
  \<^verbatim>\<open>open\<close> has truncated the file, which is left without a full snapshot.
\<close>

datatype write_result = Written | OpenFails error | WriteFails error

text \<open>
  What the world does during one round of \<^verbatim>\<open>main\<close>: the environment of its
  \<^verbatim>\<open>fetch_all\<close>, an exception raised while the summary is printed (before
  its threat line), the fate of the write, and an exception raised in
  \<^verbatim>\<open>time.sleep\<close>. Ctrl+C is the exception \<open>KeyboardInterrupt\<close> at any of
  these places.
\<close>

record tick =
  tick_env :: environment
  tick_display :: "error option"
  tick_write :: write_result
  tick_sleep :: "error option"

text \<open>
  The observable state: the threat lines printed so far and the files. A
  file holds the format flag and the snapshot last saved to it (the rendering
  as text, \<^verbatim>\<open>to_haskell_format\<close> or \<^verbatim>\<open>json.dump\<close>, is not modelled), or it is
  left truncated by a write that did not finish.
\<close>

datatype file_content = Saved bool JetskiTrackerData | Truncated

record world =
  console :: "threat list"
  files :: "string \<rightharpoonup> file_content"

text \<open>
  How a run ends: \<open>Returned\<close> when \<^verbatim>\<open>main\<close> returns, \<open>Raised e\<close> when \<open>e\<close>
  leaves \<^verbatim>\<open>main\<close>, \<open>Running\<close> when the listed rounds are used up and the
  program is still going.
\<close>

datatype outcome = Returned | Raised error | Running

text \<open>
  The body of \<^verbatim>\<open>while True\<close>: the exception that ends it, if any, and the
  world after it. The summary divides by \<^verbatim>\<open>data.network_hashrate\<close>, which
  raises \<^verbatim>\<open>ZeroDivisionError\<close> on a zero; \<^verbatim>\<open>time.sleep\<close> raises
  \<^verbatim>\<open>ValueError\<close> on a negative interval.
\<close>

definition watch_round :: "client \<Rightarrow> args \<Rightarrow> tick \<Rightarrow> world \<Rightarrow> error option \<times> world" where
  "watch_round self a t w =
     (case fetch_all self (tick_env t) of
        Inl e \<Rightarrow> (Some e, w)
      | Inr data \<Rightarrow>
          (case tick_display t of
             Some e \<Rightarrow> (Some e, w)
           | None \<Rightarrow>
               if network_hashrate data = Fin 0 then (Some ZeroDivisionError, w)
               else
                 (let w1 = w\<lparr>console :=
                             console w @ [threat_assessment (block_withholding_score data)]\<rparr>
                  in (case tick_write t of
                        OpenFails e \<Rightarrow> (Some e, w1)
                      | WriteFails e \<Rightarrow>
                          (Some e, w1\<lparr>files := (files w1)(arg_output a \<mapsto> Truncated)\<rparr>)
                      | Written \<Rightarrow>
                          (let w2 = w1\<lparr>files := (files w1)
                                       (arg_output a \<mapsto> Saved (arg_haskell a) data)\<rparr>
                           in if arg_interval a < 0 then (Some ValueError, w2)
                              else (case tick_sleep t of
                                      Some e \<Rightarrow> (Some e, w2)
                                    | None \<Rightarrow> (None, w2)))))))"

text \<open>
  \<^verbatim>\<open>try: while True: ... except KeyboardInterrupt: ...\<close>: the interrupt is the
  only exception caught; it ends the loop and \<^verbatim>\<open>main\<close> returns.
\<close>

fun watch_loop :: "client \<Rightarrow> args \<Rightarrow> tick list \<Rightarrow> world \<Rightarrow> outcome \<times> world" where
  "watch_loop self a [] w = (Running, w)"
| "watch_loop self a (t # ts) w =
     (case watch_round self a t w of
        (None, w') \<Rightarrow> watch_loop self a ts w'
      | (Some e, w') \<Rightarrow> (if e = KeyboardInterrupt then Returned else Raised e, w'))"

text \<open>The \<^verbatim>\<open>else\<close> branch of \<^verbatim>\<open>main\<close>: one fetch, one save; nothing is caught.\<close>

definition single_fetch :: "client \<Rightarrow> args \<Rightarrow> tick \<Rightarrow> world \<Rightarrow> outcome \<times> world" where
  "single_fetch self a t w =
     (case fetch_all self (tick_env t) of
        Inl e \<Rightarrow> (Raised e, w)
      | Inr data \<Rightarrow>
          (case tick_display t of
             Some e \<Rightarrow> (Raised e, w)
           | None \<Rightarrow>
               (case tick_write t of
                  OpenFails e \<Rightarrow> (Raised e, w)
                | WriteFails e \<Rightarrow> (Raised e, w\<lparr>files := (files w)(arg_output a \<mapsto> Truncated)\<rparr>)
                | Written \<Rightarrow>
                    (Returned,
                     w\<lparr>files := (files w)(arg_output a \<mapsto> Saved (arg_haskell a) data)\<rparr>))))"

text \<open>
  \<^verbatim>\<open>main\<close>, after \<^verbatim>\<open>parse_args\<close>. The list gives what the world does in each
  round, in order; with no round listed the run has not got anywhere yet.
\<close>

definition main :: "args \<Rightarrow> tick list \<Rightarrow> world \<Rightarrow> outcome \<times> world" where
  "main a ts w =
     (let self = init_client (arg_seed a)
      in if arg_watch a then watch_loop self a ts w
         else (case ts of [] \<Rightarrow> (Running, w) | t # rest \<Rightarrow> single_fetch self a t w))"

text \<open>
  Vocabulary of the properties: a reply is unavailable when the call raises,
  the status is not 200 or the body does not parse; a world in which every
  endpoint raises; a round in which Ctrl+C reaches \<^verbatim>\<open>main\<close>.
\<close>

definition unavailable :: "'d http_result \<Rightarrow> bool" where
  "unavailable r =
     (case r of
        Raises \<Rightarrow> True
      | Interrupted \<Rightarrow> False
      | Responds st body \<Rightarrow> st \<noteq> 200 \<or> body = None)"

definition all_down :: "environment \<Rightarrow> bool" where
  "all_down env \<longleftrightarrow>
     unavailable (hashrate_reply env) \<and> unavailable (orphaned_reply env) \<and>
     unavailable (pools_reply env) \<and> unavailable (reorgs_reply env) \<and>
     unavailable (price_reply env)"

definition offline :: "real \<Rightarrow> environment" where
  "offline now =
     \<lparr>hashrate_reply = Raises, fallback_reply = Raises, orphaned_reply = Raises,
      pools_reply = Raises, reorgs_reply = Raises, price_reply = Raises,
      clock = to_float now\<rparr>"

definition cancelled :: "tick \<Rightarrow> bool" where
  "cancelled t \<longleftrightarrow>
     hashrate_reply (tick_env t) = Interrupted \<or>
     tick_display t = Some KeyboardInterrupt \<or>
     tick_write t = OpenFails KeyboardInterrupt \<or>
     tick_write t = WriteFails KeyboardInterrupt \<or>
     tick_sleep t = Some KeyboardInterrupt"

text \<open>
  A sample world for the Qubic hashrate: the hashrate endpoint reports 6 GH/s,
  the pool endpoint three pools, and the other endpoints raise; and the
  snapshot that \<^verbatim>\<open>fetch_all\<close> builds there with seed 1069.
\<close>

definition sample_env :: environment where
  "sample_env =
     (offline 0)
       \<lparr>hashrate_reply := Responds 200 (Some [''hashrate_ghs'' \<mapsto> lit 6.0]),
        pools_reply := Responds 200 (Some [''pools'' \<mapsto>
          [\<lparr>pj_name = Some ''qubic.li'', pj_share = Some (lit 0.5)\<rparr>,
           \<lparr>pj_name = Some ''pool.Qubic.org'', pj_share = Some (lit 0.25)\<rparr>,
           \<lparr>pj_name = Some ''Qubic'', pj_share = Some (lit 0.125)\<rparr>]])\<rparr>"

definition sample_snapshot :: JetskiTrackerData where
  "sample_snapshot =
     \<lparr>network_hashrate = lit 6.0,
      qubic_hashrate = lit 1.5,
      orphaned_blocks = 0,
      block_withholding_score = lit 0.3069,
      pool_distribution =
        [(''qubic.li'', lit 0.5), (''pool.Qubic.org'', lit 0.25), (''Qubic'', lit 0.125)],
      last_reorg_depth = 0,
      timestamp = lit 0.0,
      xmr_price = lit 167.0\<rparr>"

text \<open>
  A sample watch run: the default command line with \<^verbatim>\<open>--watch\<close>, nothing
  printed or saved yet, every source down; a round whose \<^verbatim>\<open>open\<close> raises
  \<^verbatim>\<open>OSError\<close>, a round whose write raises it after the file is truncated, a
  round that goes through, and a round with Ctrl+C in its sleep.
\<close>

definition watch_args :: args where
  "watch_args =
     \<lparr>arg_output = ''jetski_data.json'', arg_watch = True, arg_interval = 60,
      arg_haskell = False, arg_seed = 1069\<rparr>"

definition fresh_world :: world where
  "fresh_world = \<lparr>console = [], files = Map.empty\<rparr>"

definition quiet_tick :: tick where
  "quiet_tick =
     \<lparr>tick_env = offline 60, tick_display = None, tick_write = Written, tick_sleep = None\<rparr>"

definition failing_tick :: tick where
  "failing_tick = quiet_tick\<lparr>tick_env := offline 0, tick_write := OpenFails OSError\<rparr>"

definition truncating_tick :: tick where
  "truncating_tick = quiet_tick\<lparr>tick_env := offline 0, tick_write := WriteFails OSError\<rparr>"

definition last_tick :: tick where
  "last_tick = quiet_tick\<lparr>tick_env := offline 120, tick_sleep := Some KeyboardInterrupt\<rparr>"

section \<open>Properties of the rounding\<close>

text \<open>
  The exponent brackets its argument; rounding yields a multiple of the unit
  in the last place, leaves such a multiple alone and never crosses a value
  that it leaves alone.
\<close>

lemma pow2_le: "a \<le> b \<Longrightarrow> (2::real) powi a \<le> 2 powi b"
  by (rule power_int_increasing) simp_all

lemma pow2_less_exp: "(2::real) powi a < 2 powi b \<Longrightarrow> a < b"
proof (rule ccontr)
  assume "2 powi a < (2::real) powi b" and "\<not> a < b"
  then have "(2::real) powi b \<le> 2 powi a" by (intro pow2_le) simp
  with \<open>2 powi a < (2::real) powi b\<close> show False by simp
qed

lemma pow2_split: "(2::real) powi a = 2 powi (a - b) * 2 powi b"
  using power_int_add [of "2::real" "a - b" b] by simp

lemma pow2_int: "0 \<le> d \<Longrightarrow> (2::real) powi d = of_int (2 ^ nat d)"
  by (simp add: power_int_nonneg_exp)

lemma expo_bounds:
  assumes "x \<noteq> 0"
  shows "2 powi expo x \<le> \<bar>x\<bar>" and "\<bar>x\<bar> < 2 powi (expo x + 1)"
proof -
  have "2 powi expo x \<le> \<bar>x\<bar> \<and> \<bar>x\<bar> < 2 powi (expo x + 1)"
  proof (cases "1 \<le> \<bar>x\<bar>")
    case True
    let ?n = "\<lfloor>\<bar>x\<bar>\<rfloor>"
    from True have n: "0 < ?n" by linarith
    from bitlen_bounds [OF n]
    have b: "2 ^ nat (bitlen ?n - 1) \<le> ?n" "?n < 2 ^ nat (bitlen ?n)" by auto
    from n have bl: "1 \<le> bitlen ?n"
      using bitlen_eq_zero_iff [of ?n] bitlen_nonneg [of ?n] by linarith
    from True have e: "expo x = bitlen ?n - 1" by (simp add: expo_def)
    have "2 powi expo x = real_of_int (2 ^ nat (bitlen ?n - 1))"
      using bl by (simp add: e power_int_nonneg_exp)
    also have "\<dots> \<le> real_of_int ?n" using b(1) by (simp only: of_int_le_iff)
    also have "\<dots> \<le> \<bar>x\<bar>" by (rule of_int_floor_le)
    finally have lo: "2 powi expo x \<le> \<bar>x\<bar>" .
    from b(2) have "?n + 1 \<le> 2 ^ nat (bitlen ?n)" by simp
    then have "real_of_int (?n + 1) \<le> real_of_int (2 ^ nat (bitlen ?n))"
      by (simp only: of_int_le_iff)
    moreover have "\<bar>x\<bar> < real_of_int (?n + 1)" by linarith
    moreover have "2 powi (expo x + 1) = real_of_int (2 ^ nat (bitlen ?n))"
      using bl by (simp add: e power_int_nonneg_exp)
    ultimately have "\<bar>x\<bar> < 2 powi (expo x + 1)" by linarith
    with lo show ?thesis by simp
  next
    case False
    let ?y = "1 / \<bar>x\<bar>"
    let ?c = "\<lceil>?y\<rceil> - 1"
    from assms False have x: "0 < \<bar>x\<bar>" "\<bar>x\<bar> < 1" by simp_all
    then have y: "1 < ?y" by simp
    then have c: "0 < ?c" by linarith
    have cy: "real_of_int ?c < ?y" "?y \<le> real_of_int (?c + 1)" by linarith+
    from bitlen_bounds [OF c]
    have b: "2 ^ nat (bitlen ?c - 1) \<le> ?c" "?c < 2 ^ nat (bitlen ?c)" by auto
    from c have bl: "1 \<le> bitlen ?c"
      using bitlen_eq_zero_iff [of ?c] bitlen_nonneg [of ?c] by linarith
    from False have e: "expo x = - bitlen ?c" by (simp add: expo_def)
    let ?B = "(2::real) ^ nat (bitlen ?c)"
    let ?A = "(2::real) ^ nat (bitlen ?c - 1)"
    from b(2) have "?c + 1 \<le> 2 ^ nat (bitlen ?c)" by simp
    then have "real_of_int (?c + 1) \<le> real_of_int (2 ^ nat (bitlen ?c))"
      by (simp only: of_int_le_iff)
    moreover have "real_of_int (2 ^ nat (bitlen ?c)) = ?B" by simp
    ultimately have yB: "?y \<le> ?B" using cy(2) by linarith
    from b(1) have "real_of_int (2 ^ nat (bitlen ?c - 1)) \<le> real_of_int ?c"
      by (simp only: of_int_le_iff)
    moreover have "real_of_int (2 ^ nat (bitlen ?c - 1)) = ?A" by simp
    ultimately have Ay: "?A < ?y" using cy(1) by linarith
    have pB: "2 powi expo x = 1 / ?B"
      using bl by (simp add: e power_int_minus power_int_nonneg_exp field_simps)
    have pA: "2 powi (expo x + 1) = 1 / ?A"
    proof -
      have "expo x + 1 = - (bitlen ?c - 1)" by (simp add: e)
      then have "2 powi (expo x + 1) = inverse ((2::real) powi (bitlen ?c - 1))"
        by (simp only: power_int_minus)
      also have "\<dots> = 1 / ?A" using bl by (simp add: power_int_nonneg_exp field_simps)
      finally show ?thesis .
    qed
    have "1 / ?B \<le> \<bar>x\<bar>"
    proof -
      from yB x have "1 \<le> ?B * \<bar>x\<bar>" by (simp add: field_simps)
      then show ?thesis by (simp add: field_simps)
    qed
    moreover have "\<bar>x\<bar> < 1 / ?A"
    proof -
      from Ay x have "?A * \<bar>x\<bar> < 1" by (simp add: field_simps)
      then show ?thesis by (simp add: field_simps)
    qed
    ultimately show ?thesis by (simp add: pA pB)
  qed
  then show "2 powi expo x \<le> \<bar>x\<bar>" and "\<bar>x\<bar> < 2 powi (expo x + 1)" by simp_all
qed

lemma expo_unique:
  assumes "2 powi e \<le> \<bar>x\<bar>" and "\<bar>x\<bar> < 2 powi (e + 1)"
  shows "expo x = e"
proof -
  have nz: "x \<noteq> 0"
  proof
    assume "x = 0"
    with assms(1) have "(2::real) powi e \<le> 0" by simp
    with zero_less_power_int [of "2::real" e] show False by linarith
  qed
  from expo_bounds [OF nz] assms
  have "(2::real) powi e < 2 powi (expo x + 1)" "(2::real) powi expo x < 2 powi (e + 1)"
    by linarith+
  then have "e < expo x + 1" "expo x < e + 1" by (auto dest: pow2_less_exp)
  then show ?thesis by simp
qed

lemma expo_mono:
  assumes "x \<noteq> 0" and "\<bar>x\<bar> \<le> \<bar>y\<bar>"
  shows "expo x \<le> expo y"
proof -
  from assms have "y \<noteq> 0" by auto
  from expo_bounds(1) [OF assms(1)] expo_bounds(2) [OF this] assms(2)
  have "(2::real) powi expo x < 2 powi (expo y + 1)" by linarith
  then have "expo x < expo y + 1" by (rule pow2_less_exp)
  then show ?thesis by simp
qed

lemma grid_mono: "x \<noteq> 0 \<Longrightarrow> \<bar>x\<bar> \<le> \<bar>y\<bar> \<Longrightarrow> grid x \<le> grid y"
  using expo_mono [of x y] by (simp add: grid_def)

lemma rhe_floor: "\<lfloor>y\<rfloor> \<le> round_half_even y" "round_half_even y \<le> \<lfloor>y\<rfloor> + 1"
  by (simp_all add: round_half_even_def Let_def)

lemma rhe_ge:
  assumes "of_int N \<le> y"
  shows "N \<le> round_half_even y"
proof -
  from assms have "N \<le> \<lfloor>y\<rfloor>" by (simp add: le_floor_iff)
  with rhe_floor(1) [of y] show ?thesis by linarith
qed

lemma rhe_le:
  assumes "y \<le> of_int N"
  shows "round_half_even y \<le> N"
proof (cases "y = of_int \<lfloor>y\<rfloor>")
  case True
  then have "round_half_even y = \<lfloor>y\<rfloor>" by (simp add: round_half_even_def Let_def)
  with assms show ?thesis by (simp add: floor_le_iff)
next
  case False
  then have "of_int \<lfloor>y\<rfloor> < y" using of_int_floor_le [of y] by linarith
  with assms have "real_of_int \<lfloor>y\<rfloor> < of_int N" by linarith
  then have "\<lfloor>y\<rfloor> < N" by (simp only: of_int_less_iff)
  with rhe_floor(2) [of y] show ?thesis by linarith
qed

lemma rhe_int: "round_half_even (of_int N) = N"
  using rhe_ge [of N "of_int N"] rhe_le [of "of_int N" N] by simp

lemma on_grid_mono:
  assumes "k' \<le> k" and "on_grid k f"
  shows "on_grid k' f"
proof -
  from assms(2) obtain N where "f = of_int N * 2 powi k" by (auto simp: on_grid_def)
  then have "f = of_int N * (2 powi (k - k') * 2 powi k')" using pow2_split [of k k'] by simp
  also have "\<dots> = of_int (N * 2 ^ nat (k - k')) * 2 powi k'"
    using assms(1) by (simp add: pow2_int)
  finally show ?thesis unfolding on_grid_def by blast
qed

lemma on_grid_0 [simp]: "on_grid k 0"
  unfolding on_grid_def by (rule exI [of _ 0]) simp

lemma on_grid_pow2: "k \<le> e \<Longrightarrow> on_grid k (2 powi e)"
  using on_grid_mono [of k e "2 powi e"] unfolding on_grid_def
  by (metis mult_1 of_int_1)

lemma on_grid_minus: "on_grid k f \<Longrightarrow> on_grid k (- f)"
  unfolding on_grid_def by (metis mult_minus_left of_int_minus)

lemma rnd_on_grid: "on_grid (grid x) (rnd x)"
  unfolding on_grid_def rnd_def by blast

lemma rnd_0 [simp]: "rnd 0 = 0"
  by (simp add: rnd_def rhe_int [of 0, simplified])

lemma rnd_ge_grid:
  assumes "on_grid (grid x) f" and "f \<le> x"
  shows "f \<le> rnd x"
proof -
  let ?q = "(2::real) powi grid x"
  have q: "0 < ?q" by simp
  from assms(1) obtain N where N: "f = of_int N * ?q" by (auto simp: on_grid_def)
  with assms(2) q have "of_int N \<le> x / ?q" by (simp add: field_simps)
  then have "N \<le> round_half_even (x / ?q)" by (rule rhe_ge)
  then have "real_of_int N \<le> of_int (round_half_even (x / ?q))" by (simp only: of_int_le_iff)
  with q have "of_int N * ?q \<le> of_int (round_half_even (x / ?q)) * ?q"
    by (intro mult_right_mono) simp_all
  then show ?thesis by (simp add: N rnd_def)
qed

lemma rnd_le_grid:
  assumes "on_grid (grid x) f" and "x \<le> f"
  shows "rnd x \<le> f"
proof -
  let ?q = "(2::real) powi grid x"
  have q: "0 < ?q" by simp
  from assms(1) obtain N where N: "f = of_int N * ?q" by (auto simp: on_grid_def)
  with assms(2) q have "x / ?q \<le> of_int N" by (simp add: field_simps)
  then have "round_half_even (x / ?q) \<le> N" by (rule rhe_le)
  then have "real_of_int (round_half_even (x / ?q)) \<le> of_int N" by (simp only: of_int_le_iff)
  with q have "of_int (round_half_even (x / ?q)) * ?q \<le> of_int N * ?q"
    by (intro mult_right_mono) simp_all
  then show ?thesis by (simp add: N rnd_def)
qed

lemma rnd_fixed_iff: "rnd f = f \<longleftrightarrow> on_grid (grid f) f"
proof
  assume "rnd f = f"
  with rnd_on_grid [of f] show "on_grid (grid f) f" by simp
next
  assume g: "on_grid (grid f) f"
  from rnd_ge_grid [OF g] rnd_le_grid [OF g] show "rnd f = f" by simp
qed


lemma sandwich_lower:
  assumes "rnd f = f" and "f \<le> x"
  shows "f \<le> rnd x"
proof (cases "grid x \<le> grid f")
  case True
  with assms(1) have "on_grid (grid x) f" by (auto simp: rnd_fixed_iff intro: on_grid_mono)
  then show ?thesis using assms(2) by (rule rnd_ge_grid)
next
  case False
  show ?thesis
  proof (cases "x \<le> 0")
    case True
    show ?thesis
    proof (cases "x = 0")
      case True
      with assms(2) show ?thesis by simp
    next
      case x: False
      with True assms(2) have "\<bar>x\<bar> \<le> \<bar>f\<bar>" by simp
      with x have "grid x \<le> grid f" by (rule grid_mono)
      with False show ?thesis by simp
    qed
  next
    case pos: False
    let ?e = "expo x"
    from pos have x: "x \<noteq> 0" "\<bar>x\<bar> = x" by simp_all
    from False have e: "- 1022 < ?e" "grid x = ?e - 52" and ef: "f \<noteq> 0 \<Longrightarrow> expo f < ?e"
      by (simp_all add: grid_def max_def split: if_splits)
    have "f < 2 powi ?e"
    proof (cases "f = 0")
      case True
      then show ?thesis by simp
    next
      case nz: False
      from expo_bounds(2) [OF nz] have "\<bar>f\<bar> < 2 powi (expo f + 1)" .
      also from ef [OF nz] have "\<dots> \<le> 2 powi ?e" by (intro pow2_le) simp
      finally show ?thesis by simp
    qed
    moreover have "2 powi ?e \<le> rnd x"
    proof (rule rnd_ge_grid)
      show "on_grid (grid x) (2 powi ?e)" using e(2) by (intro on_grid_pow2) simp
      from expo_bounds(1) [OF x(1)] x(2) show "2 powi ?e \<le> x" by simp
    qed
    ultimately show ?thesis by simp
  qed
qed

lemma sandwich_upper:
  assumes "rnd f = f" and "x \<le> f"
  shows "rnd x \<le> f"
proof (cases "grid x \<le> grid f")
  case True
  with assms(1) have "on_grid (grid x) f" by (auto simp: rnd_fixed_iff intro: on_grid_mono)
  then show ?thesis using assms(2) by (rule rnd_le_grid)
next
  case False
  show ?thesis
  proof (cases "0 \<le> x")
    case True
    show ?thesis
    proof (cases "x = 0")
      case True
      with assms(2) show ?thesis by simp
    next
      case x: False
      with True assms(2) have "\<bar>x\<bar> \<le> \<bar>f\<bar>" by simp
      with x have "grid x \<le> grid f" by (rule grid_mono)
      with False show ?thesis by simp
    qed
  next
    case neg: False
    let ?e = "expo x"
    from neg have x: "x \<noteq> 0" "\<bar>x\<bar> = - x" by simp_all
    from False have e: "- 1022 < ?e" "grid x = ?e - 52" and ef: "f \<noteq> 0 \<Longrightarrow> expo f < ?e"
      by (simp_all add: grid_def max_def split: if_splits)
    have "- (2 powi ?e) < f"
    proof (cases "f = 0")
      case True
      then show ?thesis by simp
    next
      case nz: False
      from expo_bounds(2) [OF nz] have "\<bar>f\<bar> < 2 powi (expo f + 1)" .
      also from ef [OF nz] have "\<dots> \<le> 2 powi ?e" by (intro pow2_le) simp
      finally show ?thesis by simp
    qed
    moreover have "rnd x \<le> - (2 powi ?e)"
    proof (rule rnd_le_grid)
      show "on_grid (grid x) (- (2 powi ?e))"
        using e(2) by (intro on_grid_minus on_grid_pow2) simp
      from expo_bounds(1) [OF x(1)] x(2) show "x \<le> - (2 powi ?e)" by simp
    qed
    ultimately show ?thesis by simp
  qed
qed

lemma rnd_idem: "rnd (rnd x) = rnd x"
proof (cases "rnd x = 0")
  case True
  then show ?thesis by simp
next
  case r: False
  then have x: "x \<noteq> 0" by auto
  define y where "y = rnd x"
  define E where "E = expo y"
  from r have y: "y \<noteq> 0" by (simp add: y_def)
  have "on_grid (grid y) y"
  proof (cases "grid y \<le> grid x")
    case True
    then show ?thesis unfolding y_def using rnd_on_grid by (rule on_grid_mono)
  next
    case False
    then have E: "- 1022 < E" "grid y = E - 52" "expo x < E" "grid x < E"
      by (simp_all add: grid_def max_def E_def split: if_splits)
    have g: "on_grid (grid x) (2 powi E)" using E(4) by (intro on_grid_pow2) simp
    have xE: "\<bar>x\<bar> \<le> 2 powi E"
    proof -
      from expo_bounds(2) [OF x] have "\<bar>x\<bar> < 2 powi (expo x + 1)" .
      also from E(3) have "\<dots> \<le> 2 powi E" by (intro pow2_le) simp
      finally show ?thesis by simp
    qed
    from xE have "x \<le> 2 powi E" "- (2 powi E) \<le> x" by linarith+
    then have "y \<le> 2 powi E" "- (2 powi E) \<le> y"
      unfolding y_def using rnd_le_grid [OF g] rnd_ge_grid [OF on_grid_minus [OF g]]
      by simp_all
    moreover from expo_bounds(1) [OF y] have "2 powi E \<le> \<bar>y\<bar>" by (simp add: E_def)
    ultimately have "y = 2 powi E \<or> y = - (2 powi E)" by linarith
    moreover have "on_grid (E - 52) (2 powi E)" by (intro on_grid_pow2) simp
    ultimately show ?thesis using E(2) on_grid_minus by auto
  qed
  then show ?thesis by (simp add: rnd_fixed_iff y_def)
qed

lemma rnd_int:
  assumes "\<bar>N\<bar> < 2 ^ 53"
  shows "rnd (of_int N) = of_int N"
proof (cases "N = 0")
  case True
  then show ?thesis by simp
next
  case False
  let ?f = "real_of_int N"
  from False have nz: "?f \<noteq> 0" by simp
  from assms have "real_of_int \<bar>N\<bar> < real_of_int (2 ^ 53)" by (simp only: of_int_less_iff)
  then have "\<bar>?f\<bar> < 2 powi 53" by simp
  with expo_bounds(1) [OF nz] have "(2::real) powi expo ?f < 2 powi 53" by linarith
  then have "expo ?f < 53" by (rule pow2_less_exp)
  then have "grid ?f \<le> 0" by (simp add: grid_def)
  moreover have "on_grid 0 ?f" unfolding on_grid_def by (rule exI [of _ N]) simp
  ultimately have "on_grid (grid ?f) ?f" by (rule on_grid_mono)
  then show ?thesis by (simp add: rnd_fixed_iff)
qed

lemma rnd_pow2:
  assumes "- 1074 \<le> e"
  shows "rnd (2 powi e) = 2 powi e"
proof -
  have "expo (2 powi e) = e"
  proof (rule expo_unique)
    show "2 powi e \<le> \<bar>2 powi e :: real\<bar>" by simp
    have "(2::real) powi e < 2 powi (e + 1)" by (intro power_int_strict_increasing) simp_all
    then show "\<bar>2 powi e :: real\<bar> < 2 powi (e + 1)" by simp
  qed
  then have "grid (2 powi e) \<le> e" using assms by (simp add: grid_def)
  then have "on_grid (grid (2 powi e)) (2 powi e)" by (rule on_grid_pow2)
  then show ?thesis by (simp add: rnd_fixed_iff)
qed

lemma rnd_nonneg: "0 \<le> x \<Longrightarrow> 0 \<le> rnd x"
  using sandwich_lower [of 0 x] by simp

lemma rnd_minus_fixed: "rnd f = f \<Longrightarrow> rnd (- f) = - f"
proof -
  assume "rnd f = f"
  then have "on_grid (grid f) f" by (simp add: rnd_fixed_iff)
  moreover have "grid (- f) = grid f" by (simp add: grid_def expo_def)
  ultimately have "on_grid (grid (- f)) (- f)" by (simp add: on_grid_minus)
  then show ?thesis by (simp add: rnd_fixed_iff)
qed


text \<open>The rules that evaluate a float operation on numerals.\<close>

lemmas float_eval = lit_def to_float_def rnd_def grid_def expo_def compute_bitlen
  round_half_even_def Let_def power_int_minus

lemma rhe_down:
  assumes "of_int N \<le> y" and "y < of_int N + 1 / 2"
  shows "round_half_even y = N"
proof -
  from assms have "\<lfloor>y\<rfloor> = N" by linarith
  with assms show ?thesis by (simp add: round_half_even_def Let_def)
qed

lemma rhe_up:
  assumes "of_int N + 1 / 2 \<le> y" and "y < of_int N + 1" and "odd N"
  shows "round_half_even y = N + 1"
proof -
  from assms have "\<lfloor>y\<rfloor> = N" by linarith
  with assms show ?thesis by (auto simp: round_half_even_def Let_def)
qed

lemma to_float_range:
  assumes "rnd a = a" and "rnd b = b" and "- (2 ^ 1024) < a" and "b < 2 ^ 1024"
    and "a \<le> x" and "x \<le> b"
  shows "\<exists>r. to_float x = Fin r \<and> a \<le> r \<and> r \<le> b \<and> rnd r = r"
proof -
  from sandwich_lower [OF assms(1,5)] sandwich_upper [OF assms(2,6)]
  have "a \<le> rnd x" "rnd x \<le> b" .
  with assms(3,4) have "to_float x = Fin (rnd x)" by (simp add: to_float_def Let_def)
  with \<open>a \<le> rnd x\<close> \<open>rnd x \<le> b\<close> rnd_idem [of x] show ?thesis by simp
qed

lemma to_float_int_range:
  assumes "of_int i \<le> x" and "x \<le> of_int j" and "\<bar>i\<bar> < 2 ^ 53" and "\<bar>j\<bar> < 2 ^ 53"
  shows "\<exists>r. to_float x = Fin r \<and> of_int i \<le> r \<and> r \<le> of_int j \<and> rnd r = r"
proof (rule to_float_range [OF rnd_int rnd_int _ _ assms(1,2)])
  show "\<bar>i\<bar> < 2 ^ 53" "\<bar>j\<bar> < 2 ^ 53" by fact+
  from assms(3) have "real_of_int \<bar>i\<bar> < real_of_int (2 ^ 53)" by (simp only: of_int_less_iff)
  then show "- (2 ^ 1024) < real_of_int i" by simp
  from assms(4) have "real_of_int \<bar>j\<bar> < real_of_int (2 ^ 53)" by (simp only: of_int_less_iff)
  then show "real_of_int j < 2 ^ 1024" by simp
qed

lemma is_double_to_float: "is_double (to_float x)"
  using rnd_idem [of x] by (auto simp: to_float_def Let_def)

text \<open>The literals of the scorer as binary64 values.\<close>

lemma lit_20: "lit 20.0 = Fin 20" by (simp add: float_eval)
lemma lit_1: "lit 1.0 = Fin 1" by (simp add: float_eval)
lemma lit_0: "lit 0.0 = Fin 0" by (simp add: float_eval)
lemma lit_10000: "lit 10000.0 = Fin 10000" by (simp add: float_eval)
lemma lit_03: "lit 0.3 = Fin (5404319552844595 / 18014398509481984)" by (simp add: float_eval)
lemma lit_02: "lit 0.2 = Fin (3602879701896397 / 18014398509481984)" by (simp add: float_eval)
lemma lit_07: "lit 0.7 = Fin (3152519739159347 / 4503599627370496)" by (simp add: float_eval)
lemma lit_00099: "lit 0.0099 = Fin (5706961447803893 / 576460752303423488)" by (simp add: float_eval)

text \<open>
  The largest binary64 value is \<open>2 ^ 1024 - 2 ^ 971\<close>. A real from
  \<open>2 ^ 1024 - 2 ^ 970\<close> on, halfway to \<open>2 ^ 1024\<close>, rounds out of range; below
  it a non-negative real rounds into range.
\<close>

lemma grid_1023:
  assumes "2 ^ 1023 \<le> x" and "x < 2 ^ 1024"
  shows "grid x = 971"
proof -
  have "expo x = 1023"
  proof (rule expo_unique)
    from assms(1) show "2 powi 1023 \<le> \<bar>x\<bar>" by simp
    from assms show "\<bar>x\<bar> < 2 powi (1023 + 1)" by simp
  qed
  then show ?thesis by (simp add: grid_def)
qed

lemma rnd_below_threshold:
  assumes "2 ^ 1024 - 2 ^ 971 \<le> x" and "x < 2 ^ 1024 - 2 ^ 970"
  shows "rnd x = 2 ^ 1024 - 2 ^ 971"
proof -
  from assms have g: "grid x = 971" by (intro grid_1023) simp_all
  have "round_half_even (x / 2 powi 971) = 2 ^ 53 - 1"
  proof (rule rhe_down)
    from assms(1) show "real_of_int (2 ^ 53 - 1) \<le> x / 2 powi 971"
      by (simp add: field_simps)
    from assms(2) show "x / 2 powi 971 < real_of_int (2 ^ 53 - 1) + 1 / 2"
      by (simp add: field_simps)
  qed
  then show ?thesis by (simp add: rnd_def g)
qed

lemma rnd_at_threshold:
  assumes "2 ^ 1024 - 2 ^ 970 \<le> x" and "x < 2 ^ 1024"
  shows "rnd x = 2 ^ 1024"
proof -
  from assms have g: "grid x = 971" by (intro grid_1023) simp_all
  have "round_half_even (x / 2 powi 971) = (2 ^ 53 - 1) + 1"
  proof (rule rhe_up)
    from assms(1) show "real_of_int (2 ^ 53 - 1) + 1 / 2 \<le> x / 2 powi 971"
      by (simp add: field_simps)
    from assms(2) show "x / 2 powi 971 < real_of_int (2 ^ 53 - 1) + 1"
      by (simp add: field_simps)
    show "odd (2 ^ 53 - 1 :: int)" by simp
  qed
  then show ?thesis by (simp add: rnd_def g)
qed

lemma rnd_overflow:
  assumes "2 ^ 1024 - 2 ^ 970 \<le> x"
  shows "2 ^ 1024 \<le> rnd x"
proof (cases "x < 2 ^ 1024")
  case True
  with assms show ?thesis by (simp add: rnd_at_threshold)
next
  case False
  have "rnd (2 powi 1024) = 2 powi 1024" by (rule rnd_pow2) simp
  then have "rnd (2 ^ 1024) = (2 ^ 1024 :: real)" by simp
  moreover from False have "(2 ^ 1024 :: real) \<le> x" by simp
  ultimately show ?thesis by (rule sandwich_lower)
qed

lemma rnd_in_range:
  assumes "0 \<le> x" and "x < 2 ^ 1024 - 2 ^ 970"
  shows "0 \<le> rnd x" and "rnd x \<le> 2 ^ 1024 - 2 ^ 971"
proof -
  from assms(1) show "0 \<le> rnd x" by (rule rnd_nonneg)
  show "rnd x \<le> 2 ^ 1024 - 2 ^ 971"
  proof (cases "2 ^ 1024 - 2 ^ 971 \<le> x")
    case True
    with assms(2) show ?thesis by (simp add: rnd_below_threshold)
  next
    case False
    have "rnd (2 ^ 1024 - 2 ^ 971) = (2 ^ 1024 - 2 ^ 971 :: real)"
      by (rule rnd_below_threshold) simp_all
    moreover from False have "x \<le> 2 ^ 1024 - 2 ^ 971" by simp
    ultimately show ?thesis by (rule sandwich_upper)
  qed
qed

lemma int_to_float_overflow:
  assumes "2 ^ 1024 - 2 ^ 970 \<le> n"
  shows "int_to_float n = Inl OverflowError"
proof -
  from assms have "real_of_int (2 ^ 1024 - 2 ^ 970) \<le> real_of_int n"
    by (simp only: of_int_le_iff)
  then have "2 ^ 1024 - 2 ^ 970 \<le> real_of_int n" by simp
  then have "2 ^ 1024 \<le> rnd (real_of_int n)" by (rule rnd_overflow)
  then show ?thesis by (simp add: int_to_float_def to_float_def Let_def)
qed

lemma int_to_float_finite:
  assumes "0 \<le> n" and "n < 2 ^ 1024 - 2 ^ 970"
  shows "int_to_float n = Inr (Fin (rnd (of_int n)))"
    and "0 \<le> rnd (real_of_int n)" and "rnd (real_of_int n) \<le> 2 ^ 1024 - 2 ^ 971"
proof -
  from assms(2) have "real_of_int n < real_of_int (2 ^ 1024 - 2 ^ 970)"
    by (simp only: of_int_less_iff)
  then have u: "real_of_int n < 2 ^ 1024 - 2 ^ 970" by simp
  from assms(1) have l: "0 \<le> real_of_int n" by simp
  from rnd_in_range [OF l u]
  show r: "0 \<le> rnd (real_of_int n)" "rnd (real_of_int n) \<le> 2 ^ 1024 - 2 ^ 971" .
  then show "int_to_float n = Inr (Fin (rnd (of_int n)))"
    by (simp add: int_to_float_def to_float_def Let_def)
qed

lemma int_to_float_exact:
  assumes "\<bar>n\<bar> < 2 ^ 53"
  shows "int_to_float n = Inr (Fin (of_int n))"
proof -
  from assms have "real_of_int \<bar>n\<bar> < real_of_int (2 ^ 53)" by (simp only: of_int_less_iff)
  then have "\<bar>real_of_int n\<bar> < 2 ^ 1024" by simp
  then show ?thesis
    by (simp add: int_to_float_def to_float_def Let_def rnd_int [OF assms] abs_less_iff)
qed

text \<open>The operand \<^verbatim>\<open>self.seed % 100\<close> of the seed offset converts exactly.\<close>

lemma seed_operand_exact: "int_to_float (s mod 100) = Inr (Fin (of_int (s mod 100)))"
proof (rule int_to_float_exact)
  have "0 \<le> s mod 100" "s mod 100 < 100" by simp_all
  then show "\<bar>s mod 100\<bar> < 2 ^ 53" by simp
qed

section \<open>Properties of the score\<close>

lemmas score_eval = calculate_withholding_score_def orphan_score_def int_to_float_def
  max_pool_share_def concentration_score_def combined_def seed_offset_def fsub_def
  py_min_def py_max_def init_client_def

lemma py_max_cases: "py_max a b = a \<or> py_max a b = b"
  by (simp add: py_max_def)

lemma foldl_py_max_mem: "foldl py_max x xs \<in> set (x # xs)"
proof (induction xs arbitrary: x)
  case Nil
  show ?case by simp
next
  case (Cons y ys)
  have "foldl py_max (py_max x y) ys \<in> set (py_max x y # ys)" by (rule Cons.IH)
  with py_max_cases [of x y] show ?case by auto
qed

lemma max_pool_share_mem:
  assumes "pd \<noteq> []"
  shows "\<exists>m. max_pool_share pd = Inr m \<and> m \<in> snd ` set pd"
proof -
  from assms obtain p ps where pd: "pd = p # ps" by (cases pd) auto
  have "foldl py_max (snd p) (map snd ps) \<in> set (snd p # map snd ps)"
    by (rule foldl_py_max_mem)
  then show ?thesis by (auto simp: pd max_pool_share_def)
qed

lemma fle_between:
  assumes "fle (Fin a) v" and "fle v (Fin b)"
  shows "\<exists>s. v = Fin s \<and> a \<le> s \<and> s \<le> b"
  using assms by (cases v) simp_all

lemma fmul_range:
  assumes "0 \<le> a" and "a \<le> of_int A" and "0 \<le> b" and "b \<le> 1" and "0 \<le> A" and "A < 2 ^ 53"
  shows "\<exists>r. fmul (Fin a) (Fin b) = Fin r \<and> 0 \<le> r \<and> r \<le> of_int A"
proof -
  from assms(1,3) have "0 \<le> a * b" by simp
  moreover from assms(1-4) have "a * b \<le> of_int A"
    using mult_mono [of a "of_int A" b 1] by simp
  ultimately obtain r where "to_float (a * b) = Fin r" "of_int 0 \<le> r" "r \<le> of_int A"
    using to_float_int_range [of 0 "a * b" A] assms(5,6) by auto
  then show ?thesis by simp
qed

lemma fadd_range:
  assumes "0 \<le> a" and "a \<le> of_int A" and "0 \<le> b" and "b \<le> of_int B"
    and "0 \<le> A" and "0 \<le> B" and "A + B < 2 ^ 53"
  shows "\<exists>r. fadd (Fin a) (Fin b) = Fin r \<and> 0 \<le> r \<and> r \<le> of_int (A + B)"
proof -
  from assms(1-4) have "of_int 0 \<le> a + b" "a + b \<le> of_int (A + B)" by simp_all
  then obtain r where "to_float (a + b) = Fin r" "of_int 0 \<le> r" "r \<le> of_int (A + B)"
    using to_float_int_range [of 0 "a + b" "A + B"] assms(5-7) by auto
  then show ?thesis by simp
qed

lemma concentration_unit:
  assumes "0 \<le> s" and "s \<le> 1"
  shows "\<exists>c. concentration_score (Fin s) = Fin c \<and> 0 \<le> c \<and> c \<le> 8"
proof -
  let ?c3 = "5404319552844595 / 18014398509481984 :: real"
  let ?c2 = "3602879701896397 / 18014398509481984 :: real"
  have sub: "fsub (Fin s) (lit 0.3) = to_float (s - ?c3)" by (simp add: fsub_def lit_03)
  from assms have "of_int (- 1) \<le> s - ?c3" "s - ?c3 \<le> of_int 1" by simp_all
  then obtain d where d: "to_float (s - ?c3) = Fin d" "- 1 \<le> d" "d \<le> 1"
    using to_float_int_range [of "- 1" "s - ?c3" 1] by auto
  have div: "fdiv (Fin d) (lit 0.2) = to_float (d / ?c2)" unfolding lit_02 by simp
  from d(2,3) have "of_int (- 8) \<le> d / ?c2" "d / ?c2 \<le> of_int 8" by simp_all
  then obtain c where c: "to_float (d / ?c2) = Fin c" "- 8 \<le> c" "c \<le> 8"
    using to_float_int_range [of "- 8" "d / ?c2" 8] by auto
  have "concentration_score (Fin s) = py_max (Fin 0) (Fin c)"
    unfolding concentration_score_def sub d(1) div c(1) ..
  with c(2,3) show ?thesis by (auto simp: py_max_def)
qed

lemma orphan_score_finite:
  assumes "0 \<le> ob" and "ob < 2 ^ 1024 - 2 ^ 970"
  shows "\<exists>q. orphan_score ob = Inr (Fin q) \<and> 0 \<le> q \<and> q \<le> 1"
proof -
  let ?v = "rnd (real_of_int ob)"
  note c = int_to_float_finite [OF assms]
  have p: "rnd (2 powi 1023) = 2 powi 1023" by (rule rnd_pow2) simp
  have "rnd 0 = 0" by simp
  moreover from p have "rnd (2 ^ 1023) = (2 ^ 1023 :: real)" by simp
  moreover have "- (2 ^ 1024) < (0::real)" "(2 ^ 1023 :: real) < 2 ^ 1024" by simp_all
  moreover from c(2) have "0 \<le> ?v / 20" by simp
  moreover from c(3) have "?v / 20 \<le> 2 ^ 1023" by simp
  ultimately obtain q where q: "to_float (?v / 20) = Fin q" "0 \<le> q"
    using to_float_range [of 0 "2 ^ 1023" "?v / 20"] by blast
  have "orphan_score ob = Inr (py_min (Fin q) (Fin 1))"
    unfolding orphan_score_def c(1) lit_20 lit_1 by (simp add: q(1))
  with q(2) show ?thesis by (auto simp: py_min_def)
qed

lemma orphan_score_saturated:
  assumes "20 \<le> ob" and "ob < 2 ^ 1024 - 2 ^ 970"
  shows "orphan_score ob = Inr (lit 1.0)"
proof -
  let ?v = "rnd (real_of_int ob)"
  from assms(1) have nn: "0 \<le> ob" by simp
  note c = int_to_float_finite [OF nn assms(2)]
  have "rnd (of_int 20) = of_int 20" by (rule rnd_int) simp
  moreover from assms(1) have "real_of_int 20 \<le> real_of_int ob" by (simp only: of_int_le_iff)
  ultimately have "real_of_int 20 \<le> ?v" by (rule sandwich_lower)
  then have v: "1 \<le> ?v / 20" by simp
  have "rnd (of_int 1) = of_int 1" by (rule rnd_int) simp
  then have "rnd 1 = 1" by simp
  from sandwich_lower [OF this v] have q1: "1 \<le> rnd (?v / 20)" .
  have p: "rnd (2 powi 1023) = 2 powi 1023" by (rule rnd_pow2) simp
  then have "rnd (2 ^ 1023) = (2 ^ 1023 :: real)" by simp
  moreover from c(3) have "?v / 20 \<le> 2 ^ 1023" by simp
  ultimately have "rnd (?v / 20) \<le> 2 ^ 1023" by (rule sandwich_upper)
  with q1 have "to_float (?v / 20) = Fin (rnd (?v / 20))"
    by (simp add: to_float_def Let_def)
  then have "orphan_score ob = Inr (py_min (Fin (rnd (?v / 20))) (Fin 1))"
    unfolding orphan_score_def c(1) lit_20 lit_1 by simp
  with q1 show ?thesis unfolding lit_1 by (auto simp: py_min_def)
qed

lemma orphan_score_overflow:
  assumes "2 ^ 1024 - 2 ^ 970 \<le> ob"
  shows "orphan_score ob = Inl OverflowError"
  by (simp add: orphan_score_def int_to_float_overflow [OF assms])

lemma lit_00099_fixed:
  "rnd (5706961447803893 / 576460752303423488) = 5706961447803893 / 576460752303423488"
proof -
  have e: "rnd 0.0099 = 5706961447803893 / 576460752303423488"
    by (simp add: float_eval)
  have "rnd (5706961447803893 / 576460752303423488) = rnd (rnd 0.0099)" by (simp only: e)
  also have "\<dots> = rnd 0.0099" by (rule rnd_idem)
  also note e
  finally show ?thesis .
qed

lemma seed_offset_Fin:
  "\<exists>x. seed_offset s = Fin x \<and> 0 \<le> x \<and> x \<le> 5706961447803893 / 576460752303423488
       \<and> rnd x = x"
proof -
  let ?k = "real_of_int (s mod 100)"
  have k: "0 \<le> ?k" "?k \<le> 99"
  proof -
    have "0 \<le> s mod 100" "s mod 100 \<le> 99" by simp_all
    then show "0 \<le> ?k" "?k \<le> 99" by linarith+
  qed
  have so: "seed_offset s = to_float (?k / 10000)" unfolding seed_offset_def lit_10000 by simp
  have "rnd 0 = 0" by simp
  moreover note lit_00099_fixed
  moreover have "- (2 ^ 1024) < (0::real)"
    "(5706961447803893 / 576460752303423488 :: real) < 2 ^ 1024" by simp_all
  moreover from k have "0 \<le> ?k / 10000"
    "?k / 10000 \<le> 5706961447803893 / 576460752303423488" by simp_all
  ultimately show ?thesis unfolding so
    using to_float_range [of 0 "5706961447803893 / 576460752303423488" "?k / 10000"] by blast
qed

lemma is_double_fadd: "is_double (fadd a b)"
  by (cases a; cases b) (simp_all add: is_double_to_float)

lemma is_double_combined: "is_double (combined os cs)"
  by (simp add: combined_def is_double_fadd)

lemma fadd_nonneg:
  assumes "is_double c" and "0 \<le> x"
  shows "\<not> flt (fadd c (Fin x)) c" and "c \<noteq> NaN \<Longrightarrow> fle c (fadd c (Fin x))"
    and "fadd c (Fin x) = NaN \<longleftrightarrow> c = NaN"
proof -
  have "\<not> flt (fadd c (Fin x)) c \<and> (c \<noteq> NaN \<longrightarrow> fle c (fadd c (Fin x))) \<and>
      (fadd c (Fin x) = NaN \<longleftrightarrow> c = NaN)"
  proof (cases c)
    case (Fin y)
    with assms(1) have y: "rnd y = y" "\<bar>y\<bar> < 2 ^ 1024" by simp_all
    from assms(2) have "y \<le> y + x" by simp
    from sandwich_lower [OF y(1) this] have "y \<le> rnd (y + x)" .
    with y(2) show ?thesis by (auto simp: Fin to_float_def Let_def)
  qed simp_all
  then show "\<not> flt (fadd c (Fin x)) c" and "c \<noteq> NaN \<Longrightarrow> fle c (fadd c (Fin x))"
    and "fadd c (Fin x) = NaN \<longleftrightarrow> c = NaN" by simp_all
qed

lemma py_min_one_mono:
  assumes "\<not> flt b a" and "a \<noteq> NaN \<Longrightarrow> fle a b" and "b = NaN \<longleftrightarrow> a = NaN"
  shows "\<not> flt (py_min b (Fin 1)) (py_min a (Fin 1))"
    and "a \<noteq> NaN \<Longrightarrow> fle (py_min a (Fin 1)) (py_min b (Fin 1))"
  using assms by (cases a; cases b; simp add: py_min_def)+

lemma score_unfold:
  assumes "orphan_score ob = Inr os" and "max_pool_share pd = Inr m"
  shows "calculate_withholding_score self ob pd =
     Inr (py_min (fadd (combined os (concentration_score m)) (seed_offset (seed self))) (lit 1.0))"
  by (simp add: calculate_withholding_score_def assms Let_def)

lemma score_overflow:
  assumes "2 ^ 1024 - 2 ^ 970 \<le> ob"
  shows "calculate_withholding_score self ob pd = Inl OverflowError"
  by (simp add: calculate_withholding_score_def orphan_score_overflow [OF assms])

lemma score_finite:
  assumes "pd \<noteq> []"
    and "\<forall>p \<in> set pd. fle (lit 0.0) (snd p) \<and> fle (snd p) (lit 1.0)"
    and "0 \<le> ob" and "ob < 2 ^ 1024 - 2 ^ 970"
  shows "\<exists>r. calculate_withholding_score self ob pd = Inr (Fin r) \<and> 0 \<le> r \<and> r \<le> 1"
proof -
  from max_pool_share_mem [OF assms(1)] obtain m
    where m: "max_pool_share pd = Inr m" "m \<in> snd ` set pd" by blast
  from assms(2) have "\<forall>p \<in> set pd. fle (Fin 0) (snd p) \<and> fle (snd p) (Fin 1)"
    unfolding lit_0 lit_1 .
  with m(2) have "fle (Fin 0) m" "fle m (Fin 1)" by auto
  then obtain s where s: "m = Fin s" "0 \<le> s" "s \<le> 1" using fle_between by blast
  from concentration_unit [OF s(2,3)] obtain c
    where c: "concentration_score m = Fin c" "0 \<le> c" "c \<le> 8" by (auto simp: s(1))
  from orphan_score_finite [OF assms(3,4)] obtain q
    where q: "orphan_score ob = Inr (Fin q)" "0 \<le> q" "q \<le> 1" by blast
  from seed_offset_Fin [of "seed self"] obtain x
    where x: "seed_offset (seed self) = Fin x" "0 \<le> x" "x \<le> 1" by auto
  have l7: "(0::real) \<le> 3152519739159347 / 4503599627370496"
    "(3152519739159347 / 4503599627370496 :: real) \<le> 1" by simp_all
  have l3: "(0::real) \<le> 5404319552844595 / 18014398509481984"
    "(5404319552844595 / 18014398509481984 :: real) \<le> 1" by simp_all
  from q(2,3) have "0 \<le> q" "q \<le> of_int 1" by simp_all
  from fmul_range [OF this l7] obtain p1
    where p1: "fmul (Fin q) (lit 0.7) = Fin p1" "0 \<le> p1" "p1 \<le> 1"
    unfolding lit_07 by auto
  from c(2,3) have "0 \<le> c" "c \<le> of_int 8" by simp_all
  from fmul_range [OF this l3] obtain p2
    where p2: "fmul (Fin c) (lit 0.3) = Fin p2" "0 \<le> p2" "p2 \<le> 8"
    unfolding lit_03 by auto
  from p1(2,3) p2(2,3) have "0 \<le> p1" "p1 \<le> of_int 1" "0 \<le> p2" "p2 \<le> of_int 8" by simp_all
  from fadd_range [OF this] obtain cb
    where cb: "fadd (Fin p1) (Fin p2) = Fin cb" "0 \<le> cb" "cb \<le> 9" by auto
  from cb(2,3) x(2,3) have "0 \<le> cb" "cb \<le> of_int 9" "0 \<le> x" "x \<le> of_int 1" by simp_all
  from fadd_range [OF this] obtain v
    where v: "fadd (Fin cb) (Fin x) = Fin v" "0 \<le> v" by auto
  have "combined (Fin q) (Fin c) = Fin cb"
    unfolding combined_def p1(1) p2(1) by (rule cb(1))
  moreover from v(1) have "to_float (cb + x) = Fin v" by simp
  ultimately have "calculate_withholding_score self ob pd = Inr (py_min (Fin v) (Fin 1))"
    using score_unfold [OF q(1) m(1), of self] unfolding c(1) x(1) lit_1 by simp
  with v(2) show ?thesis by (auto simp: py_min_def)
qed

text \<open>
  C3, as the code has it. For every non-empty pool distribution whose shares
  lie in \<open>[0,1]\<close>, every seed and every orphaned-block count \<open>\<ge> 0\<close>: when the
  count is below \<open>2 ^ 1024 - 2 ^ 970\<close> the score is computed and lies in
  \<open>[0,1]\<close>; from that count on \<^verbatim>\<open>orphaned_blocks / 20.0\<close> raises
  \<^verbatim>\<open>OverflowError\<close> and no score is returned.
\<close>

theorem score_in_unit_interval:
  assumes "pd \<noteq> []"
    and "\<forall>p \<in> set pd. fle (lit 0.0) (snd p) \<and> fle (snd p) (lit 1.0)"
    and "0 \<le> ob"
  shows "(ob < 2 ^ 1024 - 2 ^ 970 \<longrightarrow>
           (\<exists>r. calculate_withholding_score self ob pd = Inr r \<and>
                fle (lit 0.0) r \<and> fle r (lit 1.0))) \<and>
         (2 ^ 1024 - 2 ^ 970 \<le> ob \<longrightarrow>
           calculate_withholding_score self ob pd = Inl OverflowError)"
proof (intro conjI impI)
  assume "ob < 2 ^ 1024 - 2 ^ 970"
  from score_finite [OF assms this, of self] obtain r
    where "calculate_withholding_score self ob pd = Inr (Fin r)" "0 \<le> r" "r \<le> 1" by blast
  then show "\<exists>r. calculate_withholding_score self ob pd = Inr r \<and>
      fle (lit 0.0) r \<and> fle r (lit 1.0)"
    unfolding lit_0 lit_1 by auto
next
  assume "2 ^ 1024 - 2 ^ 970 \<le> ob"
  then show "calculate_withholding_score self ob pd = Inl OverflowError"
    by (rule score_overflow)
qed

lemma scenario_score:
  "calculate_withholding_score (init_client 1069) 18 [(name, lit 0.45)] = Inr (lit 0.8619)"
  by (simp add: score_eval float_eval)

theorem score_in_unit_interval_witness:
  "calculate_withholding_score (init_client 1069) 18 [(''Qubic'', lit 0.45)] = Inr (lit 0.8619) \<and>
   fle (lit 0.0) (lit 0.8619) \<and> fle (lit 0.8619) (lit 1.0) \<and>
   calculate_withholding_score (init_client 1069) (10 ^ 400) [(''Qubic'', lit 0.45)]
     = Inl OverflowError"
proof -
  have h1: "[(''Qubic'', lit 0.45)] \<noteq> []" by simp
  have h2: "\<forall>p \<in> set [(''Qubic'', lit 0.45)]. fle (lit 0.0) (snd p) \<and> fle (snd p) (lit 1.0)"
    by (simp add: float_eval)
  have a: "(18::int) < 2 ^ 1024 - 2 ^ 970" by simp
  have b: "(2 ^ 1024 - 2 ^ 970 :: int) \<le> 10 ^ 400" by simp
  from score_in_unit_interval [OF h1 h2, of 18 "init_client 1069"] a
  obtain r where r: "calculate_withholding_score (init_client 1069) 18 [(''Qubic'', lit 0.45)] = Inr r"
    "fle (lit 0.0) r" "fle r (lit 1.0)" by auto
  from r(1) have "r = lit 0.8619" unfolding scenario_score by simp
  moreover from score_in_unit_interval [OF h1 h2, of "10 ^ 400" "init_client 1069"] b
  have "calculate_withholding_score (init_client 1069) (10 ^ 400) [(''Qubic'', lit 0.45)]
     = Inl OverflowError" by simp
  ultimately show ?thesis using r by simp
qed

text \<open>
  C3 as stated fails: at the orphaned-block count \<open>10 ^ 400\<close>, with a share in
  \<open>[0,1]\<close>, the scorer raises and returns no score.
\<close>

theorem score_overflow_counterexample:
  "(0::int) \<le> 10 ^ 400 \<and>
   fle (lit 0.0) (lit 0.45) \<and> fle (lit 0.45) (lit 1.0) \<and>
   calculate_withholding_score (init_client 1069) (10 ^ 400) [(''Qubic'', lit 0.45)]
     = Inl OverflowError"
proof -
  have "(2 ^ 1024 - 2 ^ 970 :: int) \<le> 10 ^ 400" by simp
  from score_overflow [OF this]
  have "calculate_withholding_score (init_client 1069) (10 ^ 400) [(''Qubic'', lit 0.45)]
     = Inl OverflowError" .
  moreover have "fle (lit 0.0) (lit 0.45)" "fle (lit 0.45) (lit 1.0)"
    by (simp_all add: float_eval)
  ultimately show ?thesis by simp
qed

text \<open>
  Rounding decides the tier at a threshold: 8 orphaned blocks, a share of
  \<open>0.68\<close> and seed 0 give \<open>0.8500000000000001\<close>, above the float \<open>0.85\<close>.
\<close>

lemma threshold_rounding:
  "calculate_withholding_score (init_client 0) 8 [(name, lit 0.68)]
     = Inr (lit 0.8500000000000001) \<and>
   threat_assessment (lit 0.8500000000000001) = CRITICAL"
  by (simp add: score_eval float_eval threat_assessment_def)

text \<open>
  C4, as the code has it. On 18 orphaned blocks, a single pool with share
  \<open>0.45\<close> and seed \<open>1069\<close>: the orphan score is \<open>0.9\<close>, the concentration score
  \<open>0.7500000000000001\<close>, the combination \<open>0.855\<close>, the seed offset \<open>0.0069\<close>
  and the score \<open>0.8619\<close>. That score is above \<open>0.85\<close>, so the threat
  assessment is \<open>CRITICAL\<close>.
\<close>

theorem qubic_signature_scenario:
  "orphan_score 18 = Inr (lit 0.9) \<and>
   max_pool_share [(name, lit 0.45)] = Inr (lit 0.45) \<and>
   concentration_score (lit 0.45) = lit 0.7500000000000001 \<and>
   combined (lit 0.9) (lit 0.7500000000000001) = lit 0.855 \<and>
   seed_offset 1069 = lit 0.0069 \<and>
   calculate_withholding_score (init_client 1069) 18 [(name, lit 0.45)] = Inr (lit 0.8619) \<and>
   flt (lit 0.85) (lit 0.8619) \<and>
   threat_assessment (lit 0.8619) = CRITICAL"
proof -
  have "orphan_score 18 = Inr (lit 0.9)" by (simp add: score_eval float_eval)
  moreover have "max_pool_share [(name, lit 0.45)] = Inr (lit 0.45)"
    by (simp add: max_pool_share_def)
  moreover have "concentration_score (lit 0.45) = lit 0.7500000000000001"
    by (simp add: score_eval float_eval)
  moreover have "combined (lit 0.9) (lit 0.7500000000000001) = lit 0.855"
    by (simp add: score_eval float_eval)
  moreover have "seed_offset 1069 = lit 0.0069" by (simp add: score_eval float_eval)
  moreover note scenario_score [of name]
  moreover have "flt (lit 0.85) (lit 0.8619)" by (simp add: float_eval)
  moreover have "threat_assessment (lit 0.8619) = CRITICAL"
    by (simp add: threat_assessment_def float_eval)
  ultimately show ?thesis by blast
qed

text \<open>
  C4 as stated fails: the score of the scenario is not in the \<open>HIGH\<close> tier,
  because it is above \<open>0.85\<close>; and the concentration score is one unit in the
  last place above \<open>0.75\<close>.
\<close>

theorem qubic_signature_counterexample:
  "calculate_withholding_score (init_client 1069) 18 [(''Qubic'', lit 0.45)] = Inr (lit 0.8619) \<and>
   threat_assessment (lit 0.8619) \<noteq> HIGH \<and>
   concentration_score (lit 0.45) \<noteq> lit 0.75"
proof -
  have "threat_assessment (lit 0.8619) \<noteq> HIGH"
    by (simp add: threat_assessment_def float_eval)
  moreover have "concentration_score (lit 0.45) \<noteq> lit 0.75"
    by (simp add: score_eval float_eval)
  ultimately show ?thesis using scenario_score [of "''Qubic''"] by blast
qed

text \<open>
  C7. The score is a function of the orphaned-block count, the pool
  distribution and the seed alone: two clients with the same seed, whatever
  else their state holds, compute the same result on the same arguments.
\<close>

theorem score_deterministic:
  assumes "seed c1 = seed c2"
  shows "calculate_withholding_score c1 ob pd = calculate_withholding_score c2 ob pd"
  using assms by (simp add: calculate_withholding_score_def split: sum.splits)

theorem score_deterministic_witness:
  "seed (init_client 1069) = seed \<lparr>seed = 1069, session_headers = []\<rparr> \<and>
   calculate_withholding_score (init_client 1069) 18 [(''Qubic'', lit 0.45)] =
   calculate_withholding_score \<lparr>seed = 1069, session_headers = []\<rparr> 18 [(''Qubic'', lit 0.45)]"
proof -
  have h: "seed (init_client 1069) = seed \<lparr>seed = 1069, session_headers = []\<rparr>"
    by (simp add: init_client_def)
  from h score_deterministic [OF h] show ?thesis by (rule conjI)
qed

text \<open>The concentration score at the share \<open>1.0\<close>, evaluated.\<close>

lemma concentration_full_share:
  "concentration_score (lit 1.0) = fdiv (fsub (lit 1.0) (lit 0.3)) (lit 0.2)"
  "concentration_score (lit 1.0) = lit 3.4999999999999996"
  "flt (lit 1.0) (concentration_score (lit 1.0))"
  "concentration_score (lit 1.0) \<noteq> lit 3.5"
  by (simp_all add: score_eval float_eval)

text \<open>
  C9, as the code has it. The concentration score has no upper clamp: when
  the maximum share of the pool distribution is \<open>1.0\<close> it is
  \<^verbatim>\<open>(1.0 - 0.3) / 0.2\<close> as binary64 computes it, \<open>3.4999999999999996\<close>, above 1.
  The orphan score is \<open>1.0\<close> for every count from 20 up to the counts that
  convert to a float; from \<open>2 ^ 1024 - 2 ^ 970\<close> on it raises
  \<^verbatim>\<open>OverflowError\<close>.
\<close>

theorem concentration_score_unclamped:
  assumes "max_pool_share pd = Inr m" and "m = lit 1.0"
  shows "concentration_score m = fdiv (fsub (lit 1.0) (lit 0.3)) (lit 0.2) \<and>
         concentration_score m = lit 3.4999999999999996 \<and>
         flt (lit 1.0) (concentration_score m) \<and>
         (20 \<le> ob \<and> ob < 2 ^ 1024 - 2 ^ 970 \<longrightarrow> orphan_score ob = Inr (lit 1.0)) \<and>
         (2 ^ 1024 - 2 ^ 970 \<le> ob \<longrightarrow> orphan_score ob = Inl OverflowError)"
  unfolding assms(2)
  using concentration_full_share(1-3) orphan_score_saturated [of ob] orphan_score_overflow [of ob]
  by blast

theorem concentration_score_unclamped_witness:
  "max_pool_share [(''Qubic'', lit 1.0)] = Inr (lit 1.0) \<and>
   concentration_score (lit 1.0) = lit 3.4999999999999996 \<and>
   flt (lit 1.0) (concentration_score (lit 1.0)) \<and>
   orphan_score 25 = Inr (lit 1.0) \<and>
   orphan_score (10 ^ 400) = Inl OverflowError"
proof -
  have h: "max_pool_share [(''Qubic'', lit 1.0)] = Inr (lit 1.0)"
    by (simp add: max_pool_share_def)
  have a: "(20::int) \<le> 25 \<and> (25::int) < 2 ^ 1024 - 2 ^ 970" by simp
  have b: "(2 ^ 1024 - 2 ^ 970 :: int) \<le> 10 ^ 400" by simp
  from concentration_score_unclamped [OF h refl, of 25] a
    concentration_score_unclamped [OF h refl, of "10 ^ 400"] b h
  show ?thesis by blast
qed

text \<open>
  C9 as stated fails: at the share \<open>1.0\<close> the concentration score is not
  \<open>3.5\<close>, and at the count \<open>10 ^ 400\<close> the orphan score is not \<open>1.0\<close> but an
  \<^verbatim>\<open>OverflowError\<close>.
\<close>

theorem concentration_score_counterexample:
  "max_pool_share [(''Qubic'', lit 1.0)] = Inr (lit 1.0) \<and>
   concentration_score (lit 1.0) = lit 3.4999999999999996 \<and>
   concentration_score (lit 1.0) \<noteq> lit 3.5 \<and>
   (20::int) \<le> 10 ^ 400 \<and>
   orphan_score (10 ^ 400) = Inl OverflowError"
proof -
  have "max_pool_share [(''Qubic'', lit 1.0)] = Inr (lit 1.0)"
    by (simp add: max_pool_share_def)
  moreover have "(2 ^ 1024 - 2 ^ 970 :: int) \<le> 10 ^ 400" by simp
  from orphan_score_overflow [OF this] have "orphan_score (10 ^ 400) = Inl OverflowError" .
  moreover have "(20::int) \<le> 10 ^ 400" by simp
  ultimately show ?thesis using concentration_full_share(2,4) by blast
qed

text \<open>
  C10. For every integer seed, negative ones included, the seed offset lies
  between \<open>0\<close> and the float \<open>0.0099\<close>. Hence, whenever the score is computed,
  the sum before the final clamp is never less than the unperturbed combination,
  and the score is never less than the clamped unperturbed combination; this
  holds as Python's \<^verbatim>\<open><=\<close> whenever the combination is no \<^verbatim>\<open>nan\<close>, on which every
  comparison is false.
\<close>

theorem seed_offset_bounds:
  "fle (lit 0.0) (seed_offset s) \<and> fle (seed_offset s) (lit 0.0099) \<and>
   (\<forall>os m. orphan_score ob = Inr os \<longrightarrow> max_pool_share pd = Inr m \<longrightarrow>
      calculate_withholding_score self ob pd =
        Inr (py_min (fadd (combined os (concentration_score m)) (seed_offset (seed self)))
               (lit 1.0)) \<and>
      \<not> flt (fadd (combined os (concentration_score m)) (seed_offset (seed self)))
            (combined os (concentration_score m)) \<and>
      \<not> flt (py_min (fadd (combined os (concentration_score m)) (seed_offset (seed self)))
               (lit 1.0))
            (py_min (combined os (concentration_score m)) (lit 1.0)) \<and>
      (combined os (concentration_score m) \<noteq> NaN \<longrightarrow>
         fle (combined os (concentration_score m))
             (fadd (combined os (concentration_score m)) (seed_offset (seed self))) \<and>
         fle (py_min (combined os (concentration_score m)) (lit 1.0))
             (py_min (fadd (combined os (concentration_score m)) (seed_offset (seed self)))
                (lit 1.0))))"
proof -
  from seed_offset_Fin [of s] obtain x
    where "seed_offset s = Fin x" "0 \<le> x" "x \<le> 5706961447803893 / 576460752303423488"
    by blast
  then have b: "fle (lit 0.0) (seed_offset s)" "fle (seed_offset s) (lit 0.0099)"
    unfolding lit_0 lit_00099 by simp_all
  have "calculate_withholding_score self ob pd =
        Inr (py_min (fadd (combined os (concentration_score m)) (seed_offset (seed self)))
               (lit 1.0)) \<and>
      \<not> flt (fadd (combined os (concentration_score m)) (seed_offset (seed self)))
            (combined os (concentration_score m)) \<and>
      \<not> flt (py_min (fadd (combined os (concentration_score m)) (seed_offset (seed self)))
               (lit 1.0))
            (py_min (combined os (concentration_score m)) (lit 1.0)) \<and>
      (combined os (concentration_score m) \<noteq> NaN \<longrightarrow>
         fle (combined os (concentration_score m))
             (fadd (combined os (concentration_score m)) (seed_offset (seed self))) \<and>
         fle (py_min (combined os (concentration_score m)) (lit 1.0))
             (py_min (fadd (combined os (concentration_score m)) (seed_offset (seed self)))
                (lit 1.0)))"
    if os: "orphan_score ob = Inr os" and m: "max_pool_share pd = Inr m" for os m
  proof -
    define c where "c = combined os (concentration_score m)"
    from seed_offset_Fin [of "seed self"] obtain y
      where y: "seed_offset (seed self) = Fin y" "0 \<le> y" by blast
    have d: "is_double c" unfolding c_def by (rule is_double_combined)
    note f = fadd_nonneg [OF d y(2)]
    note p = py_min_one_mono [OF f(1) f(2) f(3)]
    from score_unfold [OF os m, of self] f p show ?thesis
      unfolding c_def [symmetric] y(1) lit_1 by blast
  qed
  with b show ?thesis by blast
qed

theorem seed_offset_bounds_witness:
  "fle (lit 0.0) (seed_offset (- 1)) \<and> fle (seed_offset (- 1)) (lit 0.0099) \<and>
   seed_offset (- 1) = lit 0.0099 \<and>
   orphan_score 18 = Inr (lit 0.9) \<and>
   max_pool_share [(''Qubic'', lit 0.45)] = Inr (lit 0.45) \<and>
   combined (lit 0.9) (concentration_score (lit 0.45)) = lit 0.855 \<and>
   calculate_withholding_score (init_client (- 1)) 18 [(''Qubic'', lit 0.45)]
     = Inr (lit 0.8649)"
proof -
  have so: "seed_offset (- 1) = lit 0.0099" by (simp add: score_eval float_eval)
  have os: "orphan_score 18 = Inr (lit 0.9)" by (simp add: score_eval float_eval)
  have h: "max_pool_share [(''Qubic'', lit 0.45)] = Inr (lit 0.45)"
    by (simp add: max_pool_share_def)
  have cb: "combined (lit 0.9) (concentration_score (lit 0.45)) = lit 0.855"
    by (simp add: score_eval float_eval)
  have sc: "calculate_withholding_score (init_client (- 1)) 18 [(''Qubic'', lit 0.45)]
     = Inr (lit 0.8649)"
    by (simp add: score_eval float_eval)
  from seed_offset_bounds [of "- 1" 18 "[(''Qubic'', lit 0.45)]" "init_client (- 1)"]
  have "fle (lit 0.0) (seed_offset (- 1)) \<and> fle (seed_offset (- 1)) (lit 0.0099)" by blast
  with so os h cb sc show ?thesis by blast
qed

section \<open>Properties of the sources\<close>

text \<open>
  Each fetch but the first is a total function of the environment, and the
  first raises nothing but a \<^verbatim>\<open>KeyboardInterrupt\<close>. When its endpoint is
  unavailable (the call raises, the status is not 200, the body does not
  parse) a fetch yields the constant on its last line.
\<close>

lemma hashrate_down:
  "unavailable (hashrate_reply env) \<Longrightarrow> fetch_network_hashrate env = Inr (lit 4.97)"
  by (auto simp: fetch_network_hashrate_def unavailable_def split: http_result.splits)

lemma orphaned_down: "unavailable (orphaned_reply env) \<Longrightarrow> fetch_orphaned_blocks env = 0"
  by (auto simp: fetch_orphaned_blocks_def unavailable_def split: http_result.splits)

lemma pools_down:
  "unavailable (pools_reply env) \<Longrightarrow> fetch_pool_distribution env = default_distribution"
  by (auto simp: fetch_pool_distribution_def unavailable_def split: http_result.splits)

lemma reorg_down: "unavailable (reorgs_reply env) \<Longrightarrow> fetch_latest_reorg env = 0"
  by (auto simp: fetch_latest_reorg_def unavailable_def split: http_result.splits)

lemma price_down: "unavailable (price_reply env) \<Longrightarrow> fetch_xmr_price env = lit 167.0"
  by (auto simp: fetch_xmr_price_def unavailable_def split: http_result.splits)

text \<open>
  A parsed body that lacks the expected field: the orphan count, the reorg
  depth and the price fall back to their constants.
\<close>

lemma orphaned_missing_field:
  "orphaned_reply env = Responds 200 (Some data) \<Longrightarrow> data ''orphaned_24h'' = None \<Longrightarrow>
   fetch_orphaned_blocks env = 0"
  by (simp add: fetch_orphaned_blocks_def dict_get_def)

lemma reorg_missing_field:
  "reorgs_reply env = Responds 200 (Some data) \<Longrightarrow> data ''reorgs'' = None \<Longrightarrow>
   fetch_latest_reorg env = 0"
  by (simp add: fetch_latest_reorg_def dict_get_def py_max_default_def)

lemma price_missing_field:
  "price_reply env = Responds 200 (Some data) \<Longrightarrow>
   data ''monero'' = None \<or> (\<exists>m. data ''monero'' = Some m \<and> m ''usd'' = None) \<Longrightarrow>
   fetch_xmr_price env = lit 167.0"
  by (auto simp: fetch_xmr_price_def)

text \<open>A pool entry that lacks a key makes the comprehension raise: the default.\<close>

lemma pools_entry_missing_key:
  "pools_reply env = Responds 200 (Some data) \<Longrightarrow>
   pool_pairs (dict_get data ''pools'' []) = None \<Longrightarrow>
   fetch_pool_distribution env = default_distribution"
  by (simp add: fetch_pool_distribution_def)

text \<open>
  C5 fails on the pool distribution. The reply has status 200 and the body
  \<^verbatim>\<open>{}\<close>, an object without the field \<^verbatim>\<open>'pools'\<close>: the fetch returns the empty
  list, which is not the default distribution.
\<close>

theorem missing_pools_field_not_default:
  "fetch_pool_distribution ((offline 0)\<lparr>pools_reply := Responds 200 (Some Map.empty)\<rparr>) = [] \<and>
   fetch_pool_distribution ((offline 0)\<lparr>pools_reply := Responds 200 (Some Map.empty)\<rparr>)
     \<noteq> default_distribution"
  by (simp add: offline_def fetch_pool_distribution_def dict_get_def default_distribution_def)

section \<open>Properties of the snapshot\<close>

lemma fetch_all_fields:
  assumes "fetch_all self env = Inr d"
  shows "qubic_hashrate d = fmul (network_hashrate d) (qubic_share (pool_distribution d))"
    and "pool_distribution d = fetch_pool_distribution env"
    and "calculate_withholding_score self (orphaned_blocks d) (pool_distribution d) =
         Inr (block_withholding_score d)"
  using assms by (auto simp: fetch_all_def Let_def split: sum.splits)

lemma max_pool_share_empty: "max_pool_share [] = Inl ValueError"
  by (simp add: max_pool_share_def)

lemma score_empty_raises: "\<exists>e. calculate_withholding_score self ob [] = Inl e"
  by (simp add: calculate_withholding_score_def max_pool_share_empty split: sum.splits)

text \<open>A snapshot that is built has a pool distribution with an entry.\<close>

lemma snapshot_pools_nonempty:
  assumes "fetch_all self env = Inr d"
  shows "pool_distribution d \<noteq> []"
proof
  assume "pool_distribution d = []"
  with fetch_all_fields(3) [OF assms] score_empty_raises [of self "orphaned_blocks d"]
  show False by simp
qed

lemma orphan_score_0: "orphan_score 0 = Inr (lit 0.0)"
  by (simp add: score_eval float_eval)

lemma max_pool_share_default: "max_pool_share default_distribution = Inr (lit 0.35)"
  by (simp add: max_pool_share_def default_distribution_def py_max_def float_eval)

lemma qubic_share_default: "qubic_share default_distribution = lit 0.15"
  by (simp add: default_distribution_def)

lemma concentration_default: "concentration_score (lit 0.35) = lit 0.24999999999999994"
  by (simp add: score_eval float_eval)

lemma combined_default: "combined (lit 0.0) (lit 0.24999999999999994) = lit 0.07499999999999998"
  by (simp add: score_eval float_eval)

lemma lit_0075: "lit 0.07499999999999998 = Fin (2702159776422297 / 36028797018963968)"
  by (simp add: float_eval)

lemma score_default:
  "calculate_withholding_score self 0 default_distribution =
     Inr (fadd (lit 0.07499999999999998) (seed_offset (seed self)))"
proof -
  let ?c = "2702159776422297 / 36028797018963968 :: real"
  from seed_offset_Fin [of "seed self"] obtain x
    where x: "seed_offset (seed self) = Fin x" "0 \<le> x"
      "x \<le> 5706961447803893 / 576460752303423488" by blast
  from x(2,3) have "of_int 0 \<le> ?c + x" "?c + x \<le> of_int 1" by simp_all
  then obtain r where r: "to_float (?c + x) = Fin r" "r \<le> 1"
    using to_float_int_range [of 0 "?c + x" 1] by auto
  have "calculate_withholding_score self 0 default_distribution =
      Inr (py_min (fadd (combined (lit 0.0) (concentration_score (lit 0.35)))
                     (seed_offset (seed self))) (lit 1.0))"
    by (rule score_unfold [OF orphan_score_0 max_pool_share_default])
  also have "\<dots> = Inr (py_min (fadd (lit 0.07499999999999998) (seed_offset (seed self)))
                       (lit 1.0))"
    by (simp only: concentration_default combined_default)
  also have "\<dots> = Inr (fadd (lit 0.07499999999999998) (seed_offset (seed self)))"
    unfolding lit_0075 x(1) lit_1 using r by (simp add: py_min_def)
  finally show ?thesis .
qed

lemma fetch_all_down:
  assumes "all_down env"
  shows "fetch_all self env =
     Inr \<lparr>network_hashrate = lit 4.97,
          qubic_hashrate = fmul (lit 4.97) (lit 0.15),
          orphaned_blocks = 0,
          block_withholding_score = fadd (lit 0.07499999999999998) (seed_offset (seed self)),
          pool_distribution = default_distribution,
          last_reorg_depth = 0,
          timestamp = clock env,
          xmr_price = lit 167.0\<rparr>"
proof -
  from assms have "fetch_network_hashrate env = Inr (lit 4.97)" "fetch_orphaned_blocks env = 0"
    "fetch_pool_distribution env = default_distribution" "fetch_latest_reorg env = 0"
    "fetch_xmr_price env = lit 167.0"
    by (simp_all only: all_down_def hashrate_down orphaned_down pools_down reorg_down price_down)
  then show ?thesis
    unfolding fetch_all_def Let_def by (simp only: score_default qubic_share_default sum.case)
qed

lemma all_down_offline: "all_down (offline now)"
  by (simp add: all_down_def offline_def unavailable_def)

lemma seed_offset_1069: "seed_offset 1069 = lit 0.0069"
  by (simp add: score_eval float_eval)

lemma score_offline_1069:
  "fadd (lit 0.07499999999999998) (seed_offset (seed (init_client 1069)))
     = lit 0.08189999999999999"
  by (simp add: score_eval float_eval)

lemma fetch_all_offline:
  "fetch_all (init_client 1069) (offline now) =
     Inr \<lparr>network_hashrate = lit 4.97,
          qubic_hashrate = fmul (lit 4.97) (lit 0.15),
          orphaned_blocks = 0,
          block_withholding_score = lit 0.08189999999999999,
          pool_distribution = default_distribution,
          last_reorg_depth = 0,
          timestamp = to_float now,
          xmr_price = lit 167.0\<rparr>"
proof -
  have "clock (offline now) = to_float now" by (simp add: offline_def)
  with fetch_all_down [OF all_down_offline, of "init_client 1069" now]
  show ?thesis by (simp only: score_offline_1069)
qed

text \<open>
  C1, as the code has it. When all five primary endpoints are unavailable,
  \<^verbatim>\<open>fetch_all\<close> builds the snapshot of the defaults: hashrate \<open>4.97\<close>, no
  orphaned blocks, the default distribution, reorg depth 0, price \<open>167.0\<close>. The
  orphan score is \<open>0.0\<close>; the largest default share is \<open>0.35\<close> (\<open>Others\<close>), so the
  concentration score is \<^verbatim>\<open>(0.35 - 0.3) / 0.2\<close> as binary64 computes it,
  \<open>0.24999999999999994\<close>, the combination is \<open>0.07499999999999998\<close> and the
  score is that plus the seed offset.
\<close>

theorem all_sources_down_snapshot:
  assumes "all_down env"
  shows "fetch_all self env =
           Inr \<lparr>network_hashrate = lit 4.97,
                qubic_hashrate = fmul (lit 4.97) (lit 0.15),
                orphaned_blocks = 0,
                block_withholding_score =
                  fadd (lit 0.07499999999999998) (seed_offset (seed self)),
                pool_distribution = default_distribution,
                last_reorg_depth = 0,
                timestamp = clock env,
                xmr_price = lit 167.0\<rparr> \<and>
         orphan_score 0 = Inr (lit 0.0) \<and>
         max_pool_share default_distribution = Inr (lit 0.35) \<and>
         concentration_score (lit 0.35) = lit 0.24999999999999994 \<and>
         combined (lit 0.0) (lit 0.24999999999999994) = lit 0.07499999999999998"
  using fetch_all_down [OF assms, of self] orphan_score_0 max_pool_share_default
    concentration_default combined_default
  by blast

theorem all_sources_down_snapshot_witness:
  "all_down (offline 0) \<and>
   fetch_all (init_client 1069) (offline 0) =
     Inr \<lparr>network_hashrate = lit 4.97,
          qubic_hashrate = fmul (lit 4.97) (lit 0.15),
          orphaned_blocks = 0,
          block_withholding_score =
            fadd (lit 0.07499999999999998) (seed_offset (seed (init_client 1069))),
          pool_distribution = default_distribution,
          last_reorg_depth = 0,
          timestamp = clock (offline 0),
          xmr_price = lit 167.0\<rparr> \<and>
   fadd (lit 0.07499999999999998) (seed_offset (seed (init_client 1069)))
     = lit 0.08189999999999999"
  using all_down_offline [of 0]
    all_sources_down_snapshot [OF all_down_offline, of "init_client 1069" 0]
    score_offline_1069
  by blast

text \<open>
  C1 as stated fails: with every source down and seed 1069 the concentration
  score is not 0 and the score, \<open>0.08189999999999999\<close>, is not the seed offset,
  \<open>0.0069\<close>.
\<close>

theorem all_sources_down_counterexample:
  "fetch_all (init_client 1069) (offline 0) =
     Inr \<lparr>network_hashrate = lit 4.97,
          qubic_hashrate = fmul (lit 4.97) (lit 0.15),
          orphaned_blocks = 0,
          block_withholding_score = lit 0.08189999999999999,
          pool_distribution = default_distribution,
          last_reorg_depth = 0,
          timestamp = to_float 0,
          xmr_price = lit 167.0\<rparr> \<and>
   seed_offset 1069 = lit 0.0069 \<and>
   lit 0.08189999999999999 \<noteq> seed_offset 1069 \<and>
   max_pool_share default_distribution = Inr (lit 0.35) \<and>
   concentration_score (lit 0.35) \<noteq> lit 0.0"
proof -
  have "lit 0.08189999999999999 \<noteq> seed_offset 1069" by (simp add: score_eval float_eval)
  moreover have "concentration_score (lit 0.35) \<noteq> lit 0.0" by (simp add: score_eval float_eval)
  ultimately show ?thesis
    using fetch_all_offline [of 0] max_pool_share_default seed_offset_1069 by blast
qed

text \<open>
  C2 fails on the code. The pool endpoint answers with status 200 and the body
  \<^verbatim>\<open>{"pools": []}\<close>: the fetch returns the empty list, no default is put in
  its place, and the \<^verbatim>\<open>ValueError\<close> of \<^verbatim>\<open>max\<close> leaves \<^verbatim>\<open>fetch_all\<close>.
\<close>

theorem empty_pools_reply_raises:
  "fetch_pool_distribution
     ((offline 0)\<lparr>pools_reply := Responds 200 (Some [''pools'' \<mapsto> []])\<rparr>) = [] \<and>
   fetch_all (init_client 1069)
     ((offline 0)\<lparr>pools_reply := Responds 200 (Some [''pools'' \<mapsto> []])\<rparr>) = Inl ValueError"
proof -
  let ?env = "(offline 0)\<lparr>pools_reply := Responds 200 (Some [''pools'' \<mapsto> []])\<rparr>"
  have e: "fetch_pool_distribution ?env = []"
    by (simp add: offline_def fetch_pool_distribution_def dict_get_def)
  have h: "fetch_network_hashrate ?env = Inr (lit 4.97)"
    by (simp add: offline_def fetch_network_hashrate_def)
  have o: "fetch_orphaned_blocks ?env = 0" by (simp add: offline_def fetch_orphaned_blocks_def)
  have "calculate_withholding_score (init_client 1069) 0 [] = Inl ValueError"
    by (simp add: calculate_withholding_score_def orphan_score_0 max_pool_share_empty)
  with e h o show ?thesis by (simp add: fetch_all_def Let_def)
qed

text \<open>\<^verbatim>\<open>needle in haystack\<close> is the contiguous-sublist relation on strings.\<close>

lemma py_in_sublist: "py_in needle hay \<longleftrightarrow> sublist needle hay"
  by (induction hay) (simp_all add: sublist_Cons_right)

text \<open>
  \<^verbatim>\<open>next(..., 0.0)\<close> yields the share of the first entry whose name contains
  \<^verbatim>\<open>Qubic\<close>, and \<open>0.0\<close> when there is none.
\<close>

lemma qubic_share_first:
  "(\<exists>i<length pd. sublist ''Qubic'' (fst (pd ! i)) \<and>
       (\<forall>j<i. \<not> sublist ''Qubic'' (fst (pd ! j))) \<and> qubic_share pd = snd (pd ! i))
   \<or> ((\<forall>p \<in> set pd. \<not> sublist ''Qubic'' (fst p)) \<and> qubic_share pd = lit 0.0)"
proof (induction pd)
  case Nil
  show ?case by simp
next
  case (Cons p ps)
  obtain name share where p: "p = (name, share)" by (cases p)
  show ?case
  proof (cases "sublist ''Qubic'' name")
    case True
    then have "0 < length (p # ps) \<and> sublist ''Qubic'' (fst ((p # ps) ! 0)) \<and>
        (\<forall>j<0. \<not> sublist ''Qubic'' (fst ((p # ps) ! j))) \<and>
        qubic_share (p # ps) = snd ((p # ps) ! 0)"
      by (simp add: p py_in_sublist)
    then show ?thesis by blast
  next
    case False
    then have qs: "qubic_share (p # ps) = qubic_share ps" by (simp add: p py_in_sublist)
    from Cons.IH show ?thesis
    proof
      assume "\<exists>i<length ps. sublist ''Qubic'' (fst (ps ! i)) \<and>
          (\<forall>j<i. \<not> sublist ''Qubic'' (fst (ps ! j))) \<and> qubic_share ps = snd (ps ! i)"
      then obtain i where i: "i < length ps" "sublist ''Qubic'' (fst (ps ! i))"
        "\<forall>j<i. \<not> sublist ''Qubic'' (fst (ps ! j))" "qubic_share ps = snd (ps ! i)"
        by blast
      have "\<forall>j<Suc i. \<not> sublist ''Qubic'' (fst ((p # ps) ! j))"
      proof (intro allI impI)
        fix j
        assume "j < Suc i"
        show "\<not> sublist ''Qubic'' (fst ((p # ps) ! j))"
        proof (cases j)
          case 0
          with False show ?thesis by (simp add: p)
        next
          case (Suc k)
          with \<open>j < Suc i\<close> i(3) show ?thesis by simp
        qed
      qed
      with i qs have "Suc i < length (p # ps) \<and>
        sublist ''Qubic'' (fst ((p # ps) ! Suc i)) \<and>
        (\<forall>j<Suc i. \<not> sublist ''Qubic'' (fst ((p # ps) ! j))) \<and>
        qubic_share (p # ps) = snd ((p # ps) ! Suc i)"
        by simp
      then show ?thesis by blast
    next
      assume "(\<forall>p \<in> set ps. \<not> sublist ''Qubic'' (fst p)) \<and> qubic_share ps = lit 0.0"
      with False qs show ?thesis by (simp add: p)
    qed
  qed
qed

lemma sample_score:
  "calculate_withholding_score (init_client 1069) 0
     [(''qubic.li'', lit 0.5), (''pool.Qubic.org'', lit 0.25), (''Qubic'', lit 0.125)]
   = Inr (lit 0.3069)"
  by (simp add: score_eval float_eval)

lemma sample_product: "fmul (lit 6.0) (lit 0.25) = lit 1.5"
  by (simp add: float_eval)

lemma fetch_all_sample: "fetch_all (init_client 1069) sample_env = Inr sample_snapshot"
proof -
  have "fetch_network_hashrate sample_env = Inr (lit 6.0)"
    by (simp add: sample_env_def offline_def fetch_network_hashrate_def dict_get_def)
  moreover have "fetch_pool_distribution sample_env =
      [(''qubic.li'', lit 0.5), (''pool.Qubic.org'', lit 0.25), (''Qubic'', lit 0.125)]"
    by (simp add: sample_env_def offline_def fetch_pool_distribution_def dict_get_def)
  moreover have "fetch_orphaned_blocks sample_env = 0" "fetch_latest_reorg sample_env = 0"
    "fetch_xmr_price sample_env = lit 167.0" "clock sample_env = lit 0.0"
    by (simp_all add: sample_env_def offline_def fetch_orphaned_blocks_def
        fetch_latest_reorg_def fetch_xmr_price_def lit_def)
  moreover have "qubic_share
      [(''qubic.li'', lit 0.5), (''pool.Qubic.org'', lit 0.25), (''Qubic'', lit 0.125)]
      = lit 0.25" by simp
  ultimately show ?thesis
    unfolding fetch_all_def Let_def sample_snapshot_def
    by (simp only: sample_score sample_product sum.case)
qed

text \<open>
  C8. In every snapshot that \<^verbatim>\<open>fetch_all\<close> builds, the Qubic hashrate is the
  network hashrate times the share of the first entry of the pool distribution
  whose name has \<^verbatim>\<open>Qubic\<close> as a (case-sensitive, contiguous) substring, and
  the network hashrate times \<open>0.0\<close> when no entry has.
\<close>

theorem qubic_hashrate_first_match:
  assumes "fetch_all self env = Inr d"
  shows "(\<exists>i<length (pool_distribution d).
            sublist ''Qubic'' (fst (pool_distribution d ! i)) \<and>
            (\<forall>j<i. \<not> sublist ''Qubic'' (fst (pool_distribution d ! j))) \<and>
            qubic_hashrate d = fmul (network_hashrate d) (snd (pool_distribution d ! i)))
         \<or> ((\<forall>p \<in> set (pool_distribution d). \<not> sublist ''Qubic'' (fst p)) \<and>
             qubic_hashrate d = fmul (network_hashrate d) (lit 0.0))"
  using qubic_share_first [of "pool_distribution d"] fetch_all_fields(1) [OF assms]
  by auto

theorem qubic_hashrate_first_match_witness:
  "fetch_all (init_client 1069) sample_env = Inr sample_snapshot \<and>
   ((\<exists>i<length (pool_distribution sample_snapshot).
       sublist ''Qubic'' (fst (pool_distribution sample_snapshot ! i)) \<and>
       (\<forall>j<i. \<not> sublist ''Qubic'' (fst (pool_distribution sample_snapshot ! j))) \<and>
       qubic_hashrate sample_snapshot =
         fmul (network_hashrate sample_snapshot) (snd (pool_distribution sample_snapshot ! i)))
    \<or> ((\<forall>p \<in> set (pool_distribution sample_snapshot). \<not> sublist ''Qubic'' (fst p)) \<and>
        qubic_hashrate sample_snapshot = fmul (network_hashrate sample_snapshot) (lit 0.0)))"
  using fetch_all_sample qubic_hashrate_first_match [OF fetch_all_sample]
  by (rule conjI)

text \<open>
  In the sample the lower-case \<^verbatim>\<open>qubic.li\<close> is passed over and the second
  entry decides: \<open>6.0 * 0.25 = 1.5\<close>.
\<close>

lemma sample_case_sensitive:
  "\<not> py_in ''Qubic'' ''qubic.li'' \<and> py_in ''Qubic'' ''pool.Qubic.org'' \<and>
   qubic_hashrate sample_snapshot = lit 1.5"
  by (simp add: sample_snapshot_def)

section \<open>Properties of watch mode\<close>

text \<open>
  The scorer raises nothing but \<^verbatim>\<open>OverflowError\<close> and \<^verbatim>\<open>ValueError\<close>, and the
  hashrate fetch nothing but \<^verbatim>\<open>KeyboardInterrupt\<close>; so a round ends in an
  interrupt only when Ctrl+C arrived in it, and the loop returns only then.
\<close>

lemma py_max_iter_error: "py_max_iter mx xs = Inl e \<Longrightarrow> e = ValueError"
  by (cases xs) simp_all

lemma score_error:
  assumes "calculate_withholding_score self ob pd = Inl e"
  shows "e = OverflowError \<or> e = ValueError"
proof (cases "orphan_score ob")
  case (Inl e')
  then have "e' = OverflowError"
    by (auto simp: orphan_score_def int_to_float_def split: sum.splits pyfloat.splits)
  with Inl assms show ?thesis by (simp add: calculate_withholding_score_def)
next
  case (Inr os)
  with assms have "max_pool_share pd = Inl e"
    by (simp add: calculate_withholding_score_def Let_def split: sum.splits)
  then have "e = ValueError" unfolding max_pool_share_def by (rule py_max_iter_error)
  then show ?thesis by simp
qed

lemma hashrate_error:
  assumes "fetch_network_hashrate env = Inl e"
  shows "e = KeyboardInterrupt \<and> hashrate_reply env = Interrupted"
  using assms
  by (auto simp: fetch_network_hashrate_def split: http_result.splits option.splits if_splits)

lemma fetch_all_interrupt:
  assumes "fetch_all self env = Inl KeyboardInterrupt"
  shows "hashrate_reply env = Interrupted"
proof (cases "fetch_network_hashrate env")
  case (Inl e)
  then show ?thesis using hashrate_error by blast
next
  case (Inr nh)
  with assms obtain ob pd
    where "calculate_withholding_score self ob pd = Inl KeyboardInterrupt"
    by (auto simp: fetch_all_def Let_def split: sum.splits)
  from score_error [OF this] show ?thesis by simp
qed

lemma watch_round_interrupt:
  assumes "watch_round self a t w = (Some KeyboardInterrupt, w')"
  shows "cancelled t"
proof (cases "fetch_all self (tick_env t)")
  case (Inl e)
  with assms have "e = KeyboardInterrupt" by (simp add: watch_round_def)
  with Inl fetch_all_interrupt show ?thesis by (auto simp: cancelled_def)
next
  case (Inr data)
  with assms show ?thesis
    by (auto simp: watch_round_def cancelled_def Let_def
        split: option.splits if_splits write_result.splits)
qed

lemma watch_loop_returned:
  "fst (watch_loop self a ts w) = Returned \<Longrightarrow> \<exists>t \<in> set ts. cancelled t"
proof (induction ts arbitrary: w)
  case Nil
  then show ?case by simp
next
  case (Cons t ts)
  obtain r w' where r: "watch_round self a t w = (r, w')" by (cases "watch_round self a t w")
  show ?case
  proof (cases r)
    case None
    with Cons.prems r have "fst (watch_loop self a ts w') = Returned" by simp
    from Cons.IH [OF this] show ?thesis by simp
  next
    case (Some e)
    with Cons.prems r have "e = KeyboardInterrupt" by (simp split: if_splits)
    with r Some have "watch_round self a t w = (Some KeyboardInterrupt, w')" by simp
    then have "cancelled t" by (rule watch_round_interrupt)
    then show ?thesis by simp
  qed
qed

lemma watch_round_write_fails:
  assumes "fetch_all self (tick_env t) = Inr data" and "tick_display t = None"
    and "network_hashrate data \<noteq> Fin 0"
    and "tick_write t = OpenFails e \<or> tick_write t = WriteFails e"
  shows "fst (watch_round self a t w) = Some e"
  using assms by (auto simp: watch_round_def Let_def)

text \<open>
  C6, as the code has it. In watch mode, when \<^verbatim>\<open>open\<close> or the write of a round
  raises an exception other than the interrupt, that exception leaves
  \<^verbatim>\<open>main\<close>: the loop ends there and the rounds that would follow leave no
  trace. A normal return happens only upon cancellation.
\<close>

theorem watch_write_failure_ends_loop:
  assumes "arg_watch a"
    and "fetch_all (init_client (arg_seed a)) (tick_env t) = Inr data"
    and "tick_display t = None"
    and "network_hashrate data \<noteq> Fin 0"
    and "tick_write t = OpenFails e \<or> tick_write t = WriteFails e"
    and "e \<noteq> KeyboardInterrupt"
  shows "fst (main a (t # ts) w) = Raised e \<and>
         snd (main a (t # ts) w) = snd (main a [t] w) \<and>
         (\<forall>ts' w'. fst (main a ts' w') = Returned \<longrightarrow> (\<exists>t' \<in> set ts'. cancelled t'))"
proof -
  let ?self = "init_client (arg_seed a)"
  from assms(1) have m: "main a ts' w' = watch_loop ?self a ts' w'" for ts' w'
    by (simp add: main_def)
  obtain w1 where r: "watch_round ?self a t w = (Some e, w1)"
    using watch_round_write_fails [OF assms(2-5), of a w]
    by (cases "watch_round ?self a t w") auto
  with assms(6) have "watch_loop ?self a (t # ts') w = (Raised e, w1)" for ts' by simp
  then have "fst (main a (t # ts) w) = Raised e" "snd (main a (t # ts) w) = snd (main a [t] w)"
    unfolding m by simp_all
  moreover have "\<exists>t' \<in> set ts'. cancelled t'" if "fst (main a ts' w') = Returned" for ts' w'
    using that unfolding m by (rule watch_loop_returned)
  ultimately show ?thesis by blast
qed

text \<open>A round with every source down and seed 1069, evaluated.\<close>

lemma data_offline_nonzero: "lit 4.97 \<noteq> Fin 0"
  by (simp add: float_eval)

lemma threat_offline: "threat_assessment (lit 0.08189999999999999) = LOW"
  by (simp add: threat_assessment_def float_eval)

lemma threat_offline_norm:
  "threat_assessment (lit (8189999999999999 / 100000000000000000)) = LOW"
  using threat_offline by simp

lemma watch_round_offline:
  assumes "tick_env t = offline now" and "tick_display t = None" and "0 \<le> arg_interval a"
  shows "watch_round (init_client 1069) a t w =
     (let w1 = w\<lparr>console := console w @ [LOW]\<rparr>
      in case tick_write t of
           OpenFails e \<Rightarrow> (Some e, w1)
         | WriteFails e \<Rightarrow> (Some e, w1\<lparr>files := (files w1)(arg_output a \<mapsto> Truncated)\<rparr>)
         | Written \<Rightarrow>
             (tick_sleep t,
              w1\<lparr>files := (files w1)(arg_output a \<mapsto> Saved (arg_haskell a)
                 \<lparr>network_hashrate = lit 4.97,
                  qubic_hashrate = fmul (lit 4.97) (lit 0.15),
                  orphaned_blocks = 0,
                  block_withholding_score = lit 0.08189999999999999,
                  pool_distribution = default_distribution,
                  last_reorg_depth = 0,
                  timestamp = to_float now,
                  xmr_price = lit 167.0\<rparr>)\<rparr>))"
  unfolding watch_round_def assms(1) fetch_all_offline
  using assms(2,3) data_offline_nonzero
  by (simp add: threat_offline_norm Let_def split: write_result.splits option.splits)

theorem watch_write_failure_ends_loop_witness:
  "arg_watch watch_args \<and>
   tick_display failing_tick = None \<and>
   tick_write failing_tick = OpenFails OSError \<and>
   fst (main watch_args [failing_tick, quiet_tick, last_tick] fresh_world) = Raised OSError \<and>
   snd (main watch_args [failing_tick, quiet_tick, last_tick] fresh_world)
     = snd (main watch_args [failing_tick] fresh_world)"
proof -
  have w: "arg_watch watch_args" by (simp add: watch_args_def)
  have f: "fetch_all (init_client (arg_seed watch_args)) (tick_env failing_tick) =
     Inr \<lparr>network_hashrate = lit 4.97,
          qubic_hashrate = fmul (lit 4.97) (lit 0.15),
          orphaned_blocks = 0,
          block_withholding_score = lit 0.08189999999999999,
          pool_distribution = default_distribution,
          last_reorg_depth = 0,
          timestamp = to_float 0,
          xmr_price = lit 167.0\<rparr>"
    by (simp add: watch_args_def failing_tick_def quiet_tick_def fetch_all_offline)
  have d: "tick_display failing_tick = None" by (simp add: failing_tick_def quiet_tick_def)
  have n: "network_hashrate
     \<lparr>network_hashrate = lit 4.97,
      qubic_hashrate = fmul (lit 4.97) (lit 0.15),
      orphaned_blocks = 0,
      block_withholding_score = lit 0.08189999999999999,
      pool_distribution = default_distribution,
      last_reorg_depth = 0,
      timestamp = to_float 0,
      xmr_price = lit 167.0\<rparr> \<noteq> Fin 0"
    using data_offline_nonzero by simp
  have e: "tick_write failing_tick = OpenFails OSError"
    by (simp add: failing_tick_def quiet_tick_def)
  then have e': "tick_write failing_tick = OpenFails OSError \<or>
      tick_write failing_tick = WriteFails OSError" by simp
  have k: "OSError \<noteq> KeyboardInterrupt" by simp
  from watch_write_failure_ends_loop [OF w f d n e' k, of "[quiet_tick, last_tick]" fresh_world]
    w d e
  show ?thesis by blast
qed

text \<open>
  C6 as stated fails. A round whose \<^verbatim>\<open>open\<close> raises \<^verbatim>\<open>OSError\<close> ends the run
  with that error although two more rounds are listed, and so does a round
  whose write raises it after the file is truncated; one threat line is
  printed. Without the failure the same rounds run until the cancellation and
  \<^verbatim>\<open>main\<close> returns.
\<close>

theorem watch_write_failure_counterexample:
  "fst (main watch_args [failing_tick, quiet_tick, last_tick] fresh_world) = Raised OSError \<and>
   console (snd (main watch_args [failing_tick, quiet_tick, last_tick] fresh_world)) = [LOW] \<and>
   fst (main watch_args [truncating_tick, quiet_tick, last_tick] fresh_world) = Raised OSError \<and>
   console (snd (main watch_args [truncating_tick, quiet_tick, last_tick] fresh_world))
     = [LOW] \<and>
   files (snd (main watch_args [truncating_tick, quiet_tick, last_tick] fresh_world))
     ''jetski_data.json'' = Some Truncated \<and>
   fst (main watch_args [quiet_tick, quiet_tick, last_tick] fresh_world) = Returned \<and>
   console (snd (main watch_args [quiet_tick, quiet_tick, last_tick] fresh_world))
     = [LOW, LOW, LOW]"
proof -
  have a: "arg_watch watch_args" "arg_seed watch_args = 1069" "0 \<le> arg_interval watch_args"
    "arg_output watch_args = ''jetski_data.json''"
    by (simp_all add: watch_args_def)
  have t: "tick_env failing_tick = offline 0" "tick_display failing_tick = None"
    "tick_write failing_tick = OpenFails OSError"
    "tick_env truncating_tick = offline 0" "tick_display truncating_tick = None"
    "tick_write truncating_tick = WriteFails OSError"
    "tick_env quiet_tick = offline 60" "tick_display quiet_tick = None"
    "tick_write quiet_tick = Written" "tick_sleep quiet_tick = None"
    "tick_env last_tick = offline 120" "tick_display last_tick = None"
    "tick_write last_tick = Written" "tick_sleep last_tick = Some KeyboardInterrupt"
    by (simp_all add: failing_tick_def truncating_tick_def quiet_tick_def last_tick_def)
  note r = watch_round_offline [OF t(1,2) a(3)] watch_round_offline [OF t(4,5) a(3)]
    watch_round_offline [OF t(7,8) a(3)] watch_round_offline [OF t(11,12) a(3)]
  show ?thesis
    by (simp add: main_def a r t(3,6,9,10,13,14) fresh_world_def Let_def)
qed

end
